theory Spec2Isabelle
  imports
    Complex_Main
    "HOL-Library.Word"
    "HOL-Library.AList"
    "HOL-Library.List_Lexorder"
    "HOL-Library.Multiset"
    "HOL-Library.Sublist"
begin

section \<open>JavaScript values used by the advice component\<close>

text \<open>
  The development embeds \<^verbatim>\<open>AdviceButton.js\<close> (the second document of
  \<^verbatim>\<open>src/frontend/website/src/components/Dashboard.js\<close>, lines 548--917):
  \<^verbatim>\<open>generateLocalAdvice\<close>, \<^verbatim>\<open>saveInsightsToFirestore\<close> and
  \<^verbatim>\<open>handleGetAdvice\<close>.

  A JavaScript string is a sequence of UTF-16 code units. \<open>js\<close> turns an ASCII
  literal into such a sequence.
\<close>

type_synonym jschar = "16 word"

type_synonym jsstring = "jschar list"

definition js :: "string \<Rightarrow> jsstring" where
  "js s = map of_char s"

text \<open>
  A JavaScript number is modelled as an exact real or one of the three special values.
  Binary rounding and the sign of zero are not modelled: every zero is \<open>+0\<close>, which
  is what the sums of this program produce (a \<^verbatim>\<open>reduce\<close> started at \<open>0\<close>).
\<close>

datatype jsnum = Num real | PosInfinity | NegInfinity | NaN

fun jsadd :: "jsnum \<Rightarrow> jsnum \<Rightarrow> jsnum" where
  "jsadd (Num a) (Num b) = Num (a + b)"
| "jsadd NaN _ = NaN"
| "jsadd _ NaN = NaN"
| "jsadd PosInfinity NegInfinity = NaN"
| "jsadd NegInfinity PosInfinity = NaN"
| "jsadd PosInfinity _ = PosInfinity"
| "jsadd _ PosInfinity = PosInfinity"
| "jsadd NegInfinity _ = NegInfinity"
| "jsadd _ NegInfinity = NegInfinity"

fun jsmul :: "jsnum \<Rightarrow> jsnum \<Rightarrow> jsnum" where
  "jsmul (Num a) (Num b) = Num (a * b)"
| "jsmul NaN _ = NaN"
| "jsmul _ NaN = NaN"
| "jsmul PosInfinity (Num b) = (if b = 0 then NaN else if 0 < b then PosInfinity else NegInfinity)"
| "jsmul NegInfinity (Num b) = (if b = 0 then NaN else if 0 < b then NegInfinity else PosInfinity)"
| "jsmul (Num a) PosInfinity = (if a = 0 then NaN else if 0 < a then PosInfinity else NegInfinity)"
| "jsmul (Num a) NegInfinity = (if a = 0 then NaN else if 0 < a then NegInfinity else PosInfinity)"
| "jsmul PosInfinity PosInfinity = PosInfinity"
| "jsmul NegInfinity NegInfinity = PosInfinity"
| "jsmul PosInfinity NegInfinity = NegInfinity"
| "jsmul NegInfinity PosInfinity = NegInfinity"

text \<open>Division: a zero divisor gives an infinity or \<open>NaN\<close>, never an exception.\<close>

fun jsdiv :: "jsnum \<Rightarrow> jsnum \<Rightarrow> jsnum" where
  "jsdiv (Num a) (Num b) =
     (if b = 0 then (if a = 0 then NaN else if 0 < a then PosInfinity else NegInfinity)
      else Num (a / b))"
| "jsdiv NaN _ = NaN"
| "jsdiv _ NaN = NaN"
| "jsdiv (Num a) _ = Num 0"
| "jsdiv PosInfinity (Num b) = (if 0 \<le> b then PosInfinity else NegInfinity)"
| "jsdiv NegInfinity (Num b) = (if 0 \<le> b then NegInfinity else PosInfinity)"
| "jsdiv _ _ = NaN"

text \<open>The relational operators \<^verbatim>\<open>>\<close> and \<^verbatim>\<open><\<close>: false whenever an operand is \<open>NaN\<close>.\<close>

fun jsgt :: "jsnum \<Rightarrow> jsnum \<Rightarrow> bool" where
  "jsgt (Num a) (Num b) = (b < a)"
| "jsgt NaN _ = False"
| "jsgt _ NaN = False"
| "jsgt PosInfinity PosInfinity = False"
| "jsgt PosInfinity _ = True"
| "jsgt _ PosInfinity = False"
| "jsgt NegInfinity _ = False"
| "jsgt _ NegInfinity = True"

definition jslt :: "jsnum \<Rightarrow> jsnum \<Rightarrow> bool" where
  "jslt a b = jsgt b a"

text \<open>
  Truthiness, and the operator \<^verbatim>\<open>||\<close> on possibly undefined strings and numbers
  (\<open>None\<close> is \<^verbatim>\<open>undefined\<close>): the empty string, \<open>0\<close> and \<open>NaN\<close> are falsy.
\<close>

definition truthy_string :: "jsstring option \<Rightarrow> bool" where
  "truthy_string v = (case v of None \<Rightarrow> False | Some s \<Rightarrow> s \<noteq> [])"

definition truthy_number :: "jsnum option \<Rightarrow> bool" where
  "truthy_number v = (case v of None \<Rightarrow> False | Some n \<Rightarrow> n \<noteq> Num 0 \<and> n \<noteq> NaN)"

definition or_string :: "jsstring option \<Rightarrow> jsstring option \<Rightarrow> jsstring option" where
  "or_string a b = (if truthy_string a then a else b)"

definition or_number :: "jsnum option \<Rightarrow> jsnum option \<Rightarrow> jsnum option" where
  "or_number a b = (if truthy_number a then a else b)"

definition or_string_default :: "jsstring option \<Rightarrow> jsstring \<Rightarrow> jsstring" where
  "or_string_default a d = (case a of None \<Rightarrow> d | Some s \<Rightarrow> if s \<noteq> [] then s else d)"

definition or_number_default :: "jsnum option \<Rightarrow> jsnum \<Rightarrow> jsnum" where
  "or_number_default a d =
     (case a of None \<Rightarrow> d | Some n \<Rightarrow> if n \<noteq> Num 0 \<and> n \<noteq> NaN then n else d)"

text \<open>
  Built-ins of the JavaScript runtime that the component calls and whose results depend
  on the engine (date parsing) or on the binary representation of a number (printing)
  are parameters of the model:
  \<^item> \<open>Date_parse s\<close> is the time value of \<^verbatim>\<open>new Date(s)\<close> in milliseconds, \<open>None\<close> for
    an invalid date (whose time value is \<open>NaN\<close>);
  \<^item> \<open>Number_toString n\<close> is the text a template literal gives for the number \<open>n\<close>;
  \<^item> \<open>toFixed1 n\<close> is \<^verbatim>\<open>n.toFixed(1)\<close>.
\<close>

record Runtime =
  Date_parse :: "jsstring \<Rightarrow> int option"
  Number_toString :: "jsnum \<Rightarrow> jsstring"
  toFixed1 :: "jsnum \<Rightarrow> jsstring"

text \<open>
  Comparison of two \<^verbatim>\<open>Date\<close> objects with \<^verbatim>\<open>>\<close> compares their time values; it is
  false when either date is invalid.
\<close>

definition date_gt :: "int option \<Rightarrow> int option \<Rightarrow> bool" where
  "date_gt a b = (case a of None \<Rightarrow> False | Some x \<Rightarrow> (case b of None \<Rightarrow> False | Some y \<Rightarrow> y < x))"

section \<open>Actions\<close>

text \<open>
  An element of the \<^verbatim>\<open>userActions\<close> property: every field the component reads, each
  possibly undefined.
\<close>

record UserAction =
  action :: "jsstring option"
  description :: "jsstring option"
  name :: "jsstring option"
  sustainabilityScore :: "jsnum option"
  score :: "jsnum option"
  carbonImpact :: "jsnum option"
  timestamp :: "jsstring option"
  date :: "jsstring option"
  category :: "jsstring option"
  type :: "jsstring option"

text \<open>
  An element of \<^verbatim>\<open>formattedActions\<close> (lines 730--735): the four fields are always
  present. The field names carry a prime to keep them apart from those of the input.
\<close>

record FormattedAction =
  action' :: jsstring
  sustainabilityScore' :: jsnum
  timestamp' :: jsstring
  category' :: jsstring

subsection \<open>Checkpoint selection (lines 672--681)\<close>

text \<open>\<^verbatim>\<open>const actionTimestamp = action.timestamp || action.date\<close>\<close>

definition actionTimestamp :: "UserAction \<Rightarrow> jsstring option" where
  "actionTimestamp a = or_string (timestamp a) (date a)"

text \<open>
  \<^verbatim>\<open>
  let newActions = userActions;
  if (mostRecentInsightsTimestamp) {
    const lastInsightsDate = new Date(mostRecentInsightsTimestamp);
    newActions = userActions.filter(action => {
      const actionTimestamp = action.timestamp || action.date;
      if (!actionTimestamp) return false;
      return new Date(actionTimestamp) > lastInsightsDate;
    });
  }
  \<close>
\<close>

definition newActions :: "Runtime \<Rightarrow> UserAction list \<Rightarrow> jsstring option \<Rightarrow> UserAction list" where
  "newActions rt userActions mostRecentInsightsTimestamp =
     (case mostRecentInsightsTimestamp of
        None \<Rightarrow> userActions
      | Some T \<Rightarrow>
          if T = [] then userActions
          else
            (let lastInsightsDate = Date_parse rt T
             in filter (\<lambda>a.
                  (case actionTimestamp a of
                     None \<Rightarrow> False
                   | Some s \<Rightarrow>
                       if s = [] then False
                       else date_gt (Date_parse rt s) lastInsightsDate))
                  userActions))"

subsection \<open>Formatting and statistics (lines 729--741)\<close>

text \<open>
  \<^verbatim>\<open>
  formattedActions = newActions.map(action => ({
    action: action.action || action.description || action.name || 'Unknown action',
    sustainabilityScore: action.sustainabilityScore || action.score || action.carbonImpact || 0,
    timestamp: action.timestamp || action.date || new Date().toISOString(),
    category: action.category || action.type || 'General',
  }));
  \<close>
  The argument \<open>now\<close> is the clock reading \<^verbatim>\<open>new Date().toISOString()\<close> taken while
  the element is formatted.
\<close>

definition formatAction :: "jsstring \<Rightarrow> UserAction \<Rightarrow> FormattedAction" where
  "formatAction now a =
     \<lparr> action' =
         or_string_default (or_string (or_string (action a) (description a)) (name a))
           (js ''Unknown action''),
       sustainabilityScore' =
         or_number_default
           (or_number (or_number (sustainabilityScore a) (score a)) (carbonImpact a)) (Num 0),
       timestamp' = or_string_default (or_string (timestamp a) (date a)) now,
       category' = or_string_default (or_string (category a) (type a)) (js ''General'') \<rparr>"

text \<open>\<open>clock i\<close> is the clock reading while the \<open>i\<close>-th new action is formatted.\<close>

definition formattedActions :: "(nat \<Rightarrow> jsstring) \<Rightarrow> UserAction list \<Rightarrow> FormattedAction list" where
  "formattedActions clock acts = map (\<lambda>(i, a). formatAction (clock i) a) (enumerate 0 acts)"

text \<open>
  \<^verbatim>\<open>
  totalScore = formattedActions.reduce((sum, a) => sum + a.sustainabilityScore, 0);
  avgScore = formattedActions.length > 0 ? totalScore / formattedActions.length : 0;
  highImpactActions = formattedActions.filter(a => a.sustainabilityScore > 50);
  lowImpactActions = formattedActions.filter(a => a.sustainabilityScore < 25);
  \<close>
\<close>

definition totalScore :: "FormattedAction list \<Rightarrow> jsnum" where
  "totalScore fa = foldl (\<lambda>sum a. jsadd sum (sustainabilityScore' a)) (Num 0) fa"

definition avgScore :: "FormattedAction list \<Rightarrow> jsnum" where
  "avgScore fa =
     (if 0 < length fa then jsdiv (totalScore fa) (Num (real (length fa))) else Num 0)"

definition highImpactActions :: "FormattedAction list \<Rightarrow> FormattedAction list" where
  "highImpactActions fa = filter (\<lambda>a. jsgt (sustainabilityScore' a) (Num 50)) fa"

definition lowImpactActions :: "FormattedAction list \<Rightarrow> FormattedAction list" where
  "lowImpactActions fa = filter (\<lambda>a. jslt (sustainabilityScore' a) (Num 25)) fa"

section \<open>The local advice generator (lines 555--599)\<close>

text \<open>The three fields of an advice record.\<close>

record AdviceRecord =
  insights :: "jsstring list"
  recommendations :: "jsstring list"
  summary :: jsstring

text \<open>
  Exceptions are values. \<open>Error m\<close> is an error object with message \<open>m\<close>;
  \<open>TypeError\<close> and \<open>SyntaxError\<close> are raised by the runtime.
\<close>

datatype js_error = Error jsstring | TypeError | SyntaxError

text \<open>The decimal digits of a non-negative integer, as a template literal prints it.\<close>

definition digit :: "nat \<Rightarrow> jschar" where
  "digit d = of_nat (48 + d)"

fun nat_toString :: "nat \<Rightarrow> jsstring" where
  "nat_toString n = (if n < 10 then [digit n] else nat_toString (n div 10) @ [digit (n mod 10)])"

declare nat_toString.simps [simp del]

text \<open>The text \<^verbatim>\<open> kg CO\<close> followed by the subscript two (U+2082).\<close>

definition kgCO2 :: jsstring where
  "kgCO2 = js '' kg CO'' @ [0x2082]"

text \<open>\<^verbatim>\<open>action${n > 1 ? 's' : ''}\<close>\<close>

definition plural :: "nat \<Rightarrow> jsstring" where
  "plural n = (if 1 < n then js ''s'' else [])"

text \<open>
  \<^verbatim>\<open>
  if (highImpactActions.length > 0) {
    insights.push(`You have ${highImpactActions.length} high-impact action${...} with carbon
      scores above 50 kg CO2. Focus on reducing these first for maximum impact.`);
    insights.push(`Top concern: "${highImpactActions[0].action}" has a carbon impact of
      ${highImpactActions[0].sustainabilityScore} kg CO2.`);
  }
  \<close>
  Reading \<^verbatim>\<open>highImpactActions[0].action\<close> raises a \<open>TypeError\<close> when the array is empty.
\<close>

definition highImpactInsights :: "Runtime \<Rightarrow> FormattedAction list \<Rightarrow> js_error + jsstring list" where
  "highImpactInsights rt high =
     (if 0 < length high then
        (case high of
           [] \<Rightarrow> Inl TypeError
         | a0 # _ \<Rightarrow>
             Inr [js ''You have '' @ nat_toString (length high) @ js '' high-impact action''
                    @ plural (length high) @ js '' with carbon scores above 50'' @ kgCO2
                    @ js ''. Focus on reducing these first for maximum impact.'',
                  js ''Top concern: \"'' @ action' a0 @ js ''\" has a carbon impact of ''
                    @ Number_toString rt (sustainabilityScore' a0) @ kgCO2 @ js ''.''])
      else Inr [])"

text \<open>
  \<^verbatim>\<open>
  if (lowImpactActions.length > 0) {
    insights.push(`Great job! You have ${lowImpactActions.length} low-impact action${...} with
      carbon scores below 25 kg CO2.`);
  }
  \<close>
\<close>

definition lowImpactInsights :: "FormattedAction list \<Rightarrow> jsstring list" where
  "lowImpactInsights low =
     (if 0 < length low then
        [js ''Great job! You have '' @ nat_toString (length low) @ js '' low-impact action''
           @ plural (length low) @ js '' with carbon scores below 25'' @ kgCO2 @ js ''.'']
      else [])"

text \<open>
  \<^verbatim>\<open>
  const transportationActions = actions.filter(a => a.category === 'Transportation');
  if (transportationActions.length > 0) {
    const transportScore = transportationActions.reduce((sum, a) => sum + a.sustainabilityScore, 0);
    insights.push(`Transportation accounts for
      ${((transportScore / totalScore) * 100).toFixed(1)}% of your total carbon impact.`);
  }
  \<close>
\<close>

definition transportInsights :: "Runtime \<Rightarrow> FormattedAction list \<Rightarrow> jsnum \<Rightarrow> jsstring list" where
  "transportInsights rt actions tot =
     (let transportationActions = filter (\<lambda>a. category' a = js ''Transportation'') actions
      in if 0 < length transportationActions then
           (let transportScore =
                  foldl (\<lambda>sum a. jsadd sum (sustainabilityScore' a)) (Num 0) transportationActions
            in [js ''Transportation accounts for ''
                  @ toFixed1 rt (jsmul (jsdiv transportScore tot) (Num 100))
                  @ js ''% of your total carbon impact.''])
         else [])"

text \<open>The recommendations, in the order the source pushes them.\<close>

definition localRecommendations :: "Runtime \<Rightarrow> FormattedAction list \<Rightarrow> jsnum \<Rightarrow> FormattedAction list \<Rightarrow> jsstring list" where
  "localRecommendations rt actions avg high =
     (if list_ex (\<lambda>a. category' a = js ''Transportation'') high then
        [js ''Consider using public transportation, cycling, or walking instead of driving. These alternatives can reduce your transportation carbon footprint by 60-80%.'']
      else [])
     @ (if list_ex (\<lambda>a. category' a = js ''Energy'') high then
        [js ''Optimize your energy usage: turn off lights when not in use, use energy-efficient appliances, and consider renewable energy sources.'']
      else [])
     @ (if list_ex (\<lambda>a. category' a = js ''Food'' \<and> jsgt (sustainabilityScore' a) (Num 20)) actions then
        [js ''Incorporate more plant-based meals into your diet. Plant-based foods typically have a much lower carbon footprint than meat and dairy.'']
      else [])
     @ [js ''Continue your positive actions like composting, using reusable items, and choosing sustainable transportation options.'']
     @ [js ''Set a goal to reduce your average carbon impact per action from ''
          @ toFixed1 rt avg @ kgCO2 @ js '' to below ''
          @ toFixed1 rt (jsmul avg (Num (7 / 10))) @ kgCO2 @ js '' over the next month.'']"

definition localSummary :: "Runtime \<Rightarrow> FormattedAction list \<Rightarrow> jsnum \<Rightarrow> FormattedAction list \<Rightarrow> jsstring" where
  "localSummary rt actions tot high =
     js ''Based on '' @ nat_toString (length actions)
       @ js '' tracked actions, you have a total carbon impact of '' @ toFixed1 rt tot @ kgCO2
       @ js ''. ''
       @ (if 0 < length high then
            js ''Focus on reducing high-impact activities, particularly in transportation and energy usage.''
          else
            js ''Continue your sustainable practices and look for additional opportunities to reduce your carbon footprint.'')"

text \<open>
  \<^verbatim>\<open>generateLocalAdvice(actions, totalScore, avgScore, highImpactActions, lowImpactActions)\<close>:
  the insights are pushed in source order, then both lists are cut to five entries.
\<close>

definition generateLocalAdvice :: "Runtime \<Rightarrow> FormattedAction list \<Rightarrow> jsnum \<Rightarrow> jsnum \<Rightarrow> FormattedAction list \<Rightarrow> FormattedAction list \<Rightarrow> js_error + AdviceRecord" where
  "generateLocalAdvice rt actions tot avg high low =
     (case highImpactInsights rt high of
        Inl e \<Rightarrow> Inl e
      | Inr highLines \<Rightarrow>
          Inr \<lparr> insights =
                  take 5 (highLines @ lowImpactInsights low @ transportInsights rt actions tot
                    @ [js ''Your average carbon impact per action is '' @ toFixed1 rt avg
                         @ kgCO2 @ js ''.'']),
                recommendations = take 5 (localRecommendations rt actions avg high),
                summary = localSummary rt actions tot high \<rparr>)"

section \<open>An instance of the runtime for the examples\<close>

text \<open>
  \<open>toFixed1_exact\<close> follows \<^verbatim>\<open>Number.prototype.toFixed\<close> with one fraction digit on
  exact values of magnitude below \<open>10\<^sup>2\<^sup>1\<close>: the integer \<open>n\<close> closest to ten times the
  magnitude (the larger one on a tie), printed with its last digit after the point.
  \<open>Number_toString_integer\<close> prints the special values and the numbers whose value is
  an integer. \<open>exampleRuntime\<close> knows the time values of three timestamps. The
  examples use these built-ins on such arguments only; the general theorems hold for
  every runtime.
\<close>

definition toFixed1_exact :: "jsnum \<Rightarrow> jsstring" where
  "toFixed1_exact x =
     (case x of
        NaN \<Rightarrow> js ''NaN''
      | PosInfinity \<Rightarrow> js ''Infinity''
      | NegInfinity \<Rightarrow> js ''-Infinity''
      | Num r \<Rightarrow>
          (let n = nat \<lfloor>10 * \<bar>r\<bar> + 1 / 2\<rfloor>
           in (if r < 0 then js ''-'' else []) @ nat_toString (n div 10) @ js ''.''
                @ nat_toString (n mod 10)))"

definition Number_toString_integer :: "jsnum \<Rightarrow> jsstring" where
  "Number_toString_integer x =
     (case x of
        NaN \<Rightarrow> js ''NaN''
      | PosInfinity \<Rightarrow> js ''Infinity''
      | NegInfinity \<Rightarrow> js ''-Infinity''
      | Num r \<Rightarrow> (if r < 0 then js ''-'' else []) @ nat_toString (nat \<lfloor>\<bar>r\<bar>\<rfloor>))"

definition exampleRuntime :: Runtime where
  "exampleRuntime =
     \<lparr> Date_parse = (\<lambda>s.
         if s = js ''2023-12-31T00:00:00.000Z'' then Some 1703980800000
         else if s = js ''2024-01-01T00:00:00.000Z'' then Some 1704067200000
         else if s = js ''2024-01-02T00:00:00.000Z'' then Some 1704153600000
         else None),
       Number_toString = Number_toString_integer,
       toFixed1 = toFixed1_exact \<rparr>"

text \<open>
  An action as the dashboard builds it (lines 54--62 of \<^verbatim>\<open>Dashboard.js\<close>): name, score
  (stored twice), timestamp (stored twice) and category.
\<close>

definition dashboardAction :: "jsstring \<Rightarrow> real \<Rightarrow> jsstring \<Rightarrow> jsstring \<Rightarrow> UserAction" where
  "dashboardAction n s t c =
     \<lparr> action = Some n, description = None, name = None,
       sustainabilityScore = Some (Num s), score = None, carbonImpact = Some (Num s),
       timestamp = Some t, date = Some t, category = Some c, type = None \<rparr>"

text \<open>
  Scenario 2 of the specification: two actions with scores \<open>10\<close> and \<open>-5\<close>, both recorded
  after the checkpoint.
\<close>

definition scenario2_checkpoint :: jsstring where
  "scenario2_checkpoint = js ''2024-01-01T00:00:00.000Z''"

definition scenario2_actions :: "UserAction list" where
  "scenario2_actions =
     [dashboardAction (js ''Short drive'') 10 (js ''2024-01-02T00:00:00.000Z'') (js ''Transportation''),
      dashboardAction (js ''Planted a tree'') (- 5) (js ''2024-01-02T00:00:00.000Z'') (js ''Environment'')]"

section \<open>JSON text\<close>

text \<open>
  \<^verbatim>\<open>JSON.stringify\<close> and \<^verbatim>\<open>JSON.parse\<close> are built-ins of the runtime; they are modelled
  after their definition in ECMA-262 (QuoteJSONString, SerializeJSONProperty and the JSON
  grammar) on the values a JSON text denotes. An object is the list of its properties
  in insertion order. A number is kept as its literal: the conversion between a literal
  and a binary floating-point value is not modelled, so \<open>JSON_stringify\<close> prints the
  literal back.
\<close>

datatype json =
    JNull
  | JBool bool
  | JNumber jsstring
  | JString jsstring
  | JArray "json list"
  | JObject "(jsstring \<times> json) list"

subsection \<open>Serialisation\<close>

text \<open>
  A string is quoted code point by code point: the seven short escapes, a
  \<^verbatim>\<open>\uXXXX\<close> escape (lower-case digits) for the other control characters and for a
  surrogate that is not part of a pair, and the code units themselves otherwise.
\<close>

definition hex_digit :: "nat \<Rightarrow> jschar" where
  "hex_digit d = (if d < 10 then of_nat (48 + d) else of_nat (87 + d))"

definition unicode_escape :: "jschar \<Rightarrow> jsstring" where
  "unicode_escape c =
     [0x5C, 0x75, hex_digit (unat c div 4096), hex_digit (unat c div 256 mod 16),
      hex_digit (unat c div 16 mod 16), hex_digit (unat c mod 16)]"

definition is_lead :: "jschar \<Rightarrow> bool" where
  "is_lead c = (0xD800 \<le> c \<and> c \<le> 0xDBFF)"

definition is_trail :: "jschar \<Rightarrow> bool" where
  "is_trail c = (0xDC00 \<le> c \<and> c \<le> 0xDFFF)"

definition escape_unit :: "jschar \<Rightarrow> jsstring" where
  "escape_unit c =
     (if c = 0x08 then [0x5C, 0x62]
      else if c = 0x09 then [0x5C, 0x74]
      else if c = 0x0A then [0x5C, 0x6E]
      else if c = 0x0C then [0x5C, 0x66]
      else if c = 0x0D then [0x5C, 0x72]
      else if c = 0x22 then [0x5C, 0x22]
      else if c = 0x5C then [0x5C, 0x5C]
      else if c < 0x20 then unicode_escape c
      else [c])"



fun quote_chars :: "jsstring \<Rightarrow> jsstring" where
  "quote_chars [] = []"
| "quote_chars (c # cs) =
     (if is_lead c then
        (case cs of
           [] \<Rightarrow> unicode_escape c
         | d # ds \<Rightarrow> if is_trail d then c # d # quote_chars ds else unicode_escape c @ quote_chars cs)
      else if is_trail c then unicode_escape c @ quote_chars cs
      else escape_unit c @ quote_chars cs)"

definition QuoteJSONString :: "jsstring \<Rightarrow> jsstring" where
  "QuoteJSONString s = [0x22] @ quote_chars s @ [0x22]"

text \<open>The elements of an array or object, separated by commas (no white space).\<close>

fun join_comma :: "jsstring list \<Rightarrow> jsstring" where
  "join_comma [] = []"
| "join_comma [x] = x"
| "join_comma (x # y # ys) = x @ [0x2C] @ join_comma (y # ys)"

fun JSON_stringify :: "json \<Rightarrow> jsstring" where
  "JSON_stringify JNull = js ''null''"
| "JSON_stringify (JBool b) = (if b then js ''true'' else js ''false'')"
| "JSON_stringify (JNumber lit) = lit"
| "JSON_stringify (JString s) = QuoteJSONString s"
| "JSON_stringify (JArray vs) = [0x5B] @ join_comma (map JSON_stringify vs) @ [0x5D]"
| "JSON_stringify (JObject ms) =
     [0x7B] @ join_comma (map (\<lambda>(k, v). QuoteJSONString k @ [0x3A] @ JSON_stringify v) ms) @ [0x7D]"

subsection \<open>Parsing\<close>

text \<open>JSON white space: space, tab, line feed and carriage return.\<close>

definition json_ws :: "jschar \<Rightarrow> bool" where
  "json_ws c = (c = 0x20 \<or> c = 0x09 \<or> c = 0x0A \<or> c = 0x0D)"

definition skip_ws :: "jsstring \<Rightarrow> jsstring" where
  "skip_ws s = dropWhile json_ws s"

definition hex_val :: "jschar \<Rightarrow> nat option" where
  "hex_val c =
     (if 0x30 \<le> c \<and> c \<le> 0x39 then Some (unat c - 48)
      else if 0x61 \<le> c \<and> c \<le> 0x66 then Some (unat c - 87)
      else if 0x41 \<le> c \<and> c \<le> 0x46 then Some (unat c - 55)
      else None)"

definition hex4 :: "jschar \<Rightarrow> jschar \<Rightarrow> jschar \<Rightarrow> jschar \<Rightarrow> jschar option" where
  "hex4 a b c d =
     (case (hex_val a, hex_val b, hex_val c, hex_val d) of
        (Some w, Some x, Some y, Some z) \<Rightarrow> Some (of_nat (4096 * w + 256 * x + 16 * y + z))
      | _ \<Rightarrow> None)"

definition unescape :: "jschar \<Rightarrow> jschar option" where
  "unescape e =
     (if e = 0x22 then Some 0x22
      else if e = 0x5C then Some 0x5C
      else if e = 0x2F then Some 0x2F
      else if e = 0x62 then Some 0x08
      else if e = 0x66 then Some 0x0C
      else if e = 0x6E then Some 0x0A
      else if e = 0x72 then Some 0x0D
      else if e = 0x74 then Some 0x09
      else None)"

text \<open>
  \<open>parse_chars\<close> reads a string after its opening quote and returns the decoded string
  and the text after the closing quote. A raw control character, an unknown escape and a
  missing closing quote are syntax errors (\<open>None\<close>).
\<close>

fun parse_chars :: "jsstring \<Rightarrow> (jsstring \<times> jsstring) option" where
  "parse_chars [] = None"
| "parse_chars (c # cs) =
     (if c = 0x22 then Some ([], cs)
      else if c = 0x5C then
        (case cs of
           [] \<Rightarrow> None
         | e # r \<Rightarrow>
             if e = 0x75 then
               (case r of
                  h1 # h2 # h3 # h4 # r' \<Rightarrow>
                    (case hex4 h1 h2 h3 h4 of
                       None \<Rightarrow> None
                     | Some u \<Rightarrow>
                         (case parse_chars r' of None \<Rightarrow> None | Some (s, t) \<Rightarrow> Some (u # s, t)))
                | _ \<Rightarrow> None)
             else
               (case unescape e of
                  None \<Rightarrow> None
                | Some u \<Rightarrow>
                    (case parse_chars r of None \<Rightarrow> None | Some (s, t) \<Rightarrow> Some (u # s, t))))
      else if c < 0x20 then None
      else (case parse_chars cs of None \<Rightarrow> None | Some (s, t) \<Rightarrow> Some (c # s, t)))"

definition is_digit :: "jschar \<Rightarrow> bool" where
  "is_digit c = (0x30 \<le> c \<and> c \<le> 0x39)"

text \<open>
  A number is an optional minus sign, an integer part without a leading zero, an
  optional fraction and an optional exponent. \<open>parse_number\<close> returns the literal and
  the text after it.
\<close>

definition parse_digits :: "jsstring \<Rightarrow> (jsstring \<times> jsstring) option" where
  "parse_digits s = (case takeWhile is_digit s of [] \<Rightarrow> None | ds \<Rightarrow> Some (ds, dropWhile is_digit s))"

definition parse_int_part :: "jsstring \<Rightarrow> (jsstring \<times> jsstring) option" where
  "parse_int_part s =
     (case s of
        [] \<Rightarrow> None
      | c # cs \<Rightarrow> if c = 0x30 then Some ([c], cs) else parse_digits s)"

definition parse_frac_part :: "jsstring \<Rightarrow> (jsstring \<times> jsstring) option" where
  "parse_frac_part s =
     (case s of
        c # cs \<Rightarrow>
          if c = 0x2E then (case parse_digits cs of None \<Rightarrow> None | Some (ds, r) \<Rightarrow> Some (c # ds, r))
          else Some ([], s)
      | [] \<Rightarrow> Some ([], s))"

definition parse_exp_part :: "jsstring \<Rightarrow> (jsstring \<times> jsstring) option" where
  "parse_exp_part s =
     (case s of
        c # cs \<Rightarrow>
          if c = 0x65 \<or> c = 0x45 then
            (case cs of
               sg # cs' \<Rightarrow>
                 if sg = 0x2B \<or> sg = 0x2D then
                   (case parse_digits cs' of None \<Rightarrow> None | Some (ds, r) \<Rightarrow> Some (c # sg # ds, r))
                 else (case parse_digits cs of None \<Rightarrow> None | Some (ds, r) \<Rightarrow> Some (c # ds, r))
             | [] \<Rightarrow> None)
          else Some ([], s)
      | [] \<Rightarrow> Some ([], s))"

definition parse_number :: "jsstring \<Rightarrow> (jsstring \<times> jsstring) option" where
  "parse_number s =
     (let (sign, s1) = (case s of c # cs \<Rightarrow> if c = 0x2D then ([c], cs) else ([], s) | [] \<Rightarrow> ([], s))
      in case parse_int_part s1 of
           None \<Rightarrow> None
         | Some (ip, s2) \<Rightarrow>
             (case parse_frac_part s2 of
                None \<Rightarrow> None
              | Some (fp, s3) \<Rightarrow>
                  (case parse_exp_part s3 of
                     None \<Rightarrow> None
                   | Some (ep, s4) \<Rightarrow> Some (sign @ ip @ fp @ ep, s4))))"

definition parse_scalar :: "jsstring \<Rightarrow> (json \<times> jsstring) option" where
  "parse_scalar s =
     (if prefix (js ''true'') s then Some (JBool True, drop 4 s)
      else if prefix (js ''false'') s then Some (JBool False, drop 5 s)
      else if prefix (js ''null'') s then Some (JNull, drop 4 s)
      else (case parse_number s of None \<Rightarrow> None | Some (lit, r) \<Rightarrow> Some (JNumber lit, r)))"

text \<open>
  The properties of a parsed object: a repeated key keeps its first position and takes
  the later value.
\<close>

definition object_of_members :: "(jsstring \<times> json) list \<Rightarrow> (jsstring \<times> json) list" where
  "object_of_members ms = foldl (\<lambda>obj (k, v). AList.update k v obj) [] ms"

text \<open>
  The recursive descent over arrays and objects. The first argument bounds the recursion:
  it decreases at every opening bracket and at every comma, so the length of the text
  is enough (lemma \<open>JSON_parse_fuel\<close> below).
\<close>

function parse_value :: "nat \<Rightarrow> jsstring \<Rightarrow> (json \<times> jsstring) option"
  and parse_elements :: "nat \<Rightarrow> jsstring \<Rightarrow> (json list \<times> jsstring) option"
  and parse_members :: "nat \<Rightarrow> jsstring \<Rightarrow> ((jsstring \<times> json) list \<times> jsstring) option"
where
  "parse_value n s =
     (case skip_ws s of
        [] \<Rightarrow> None
      | c # cs \<Rightarrow>
          if c = 0x22 then
            (case parse_chars cs of None \<Rightarrow> None | Some (t, r) \<Rightarrow> Some (JString t, r))
          else if c = 0x5B then
            (case n of
               0 \<Rightarrow> None
             | Suc m \<Rightarrow>
                 (case skip_ws cs of
                    [] \<Rightarrow> None
                  | d # r \<Rightarrow>
                      if d = 0x5D then Some (JArray [], r)
                      else (case parse_elements m cs of
                              None \<Rightarrow> None
                            | Some (vs, r') \<Rightarrow> Some (JArray vs, r'))))
          else if c = 0x7B then
            (case n of
               0 \<Rightarrow> None
             | Suc m \<Rightarrow>
                 (case skip_ws cs of
                    [] \<Rightarrow> None
                  | d # r \<Rightarrow>
                      if d = 0x7D then Some (JObject [], r)
                      else (case parse_members m cs of
                              None \<Rightarrow> None
                            | Some (ms, r') \<Rightarrow> Some (JObject (object_of_members ms), r'))))
          else parse_scalar (c # cs))"
| "parse_elements n s =
     (case parse_value n s of
        None \<Rightarrow> None
      | Some (v, r) \<Rightarrow>
          (case skip_ws r of
             [] \<Rightarrow> None
           | c # r' \<Rightarrow>
               if c = 0x2C then
                 (case n of
                    0 \<Rightarrow> None
                  | Suc m \<Rightarrow>
                      (case parse_elements m r' of
                         None \<Rightarrow> None
                       | Some (vs, r'') \<Rightarrow> Some (v # vs, r'')))
               else if c = 0x5D then Some ([v], r')
               else None))"
| "parse_members n s =
     (case skip_ws s of
        [] \<Rightarrow> None
      | q # s1 \<Rightarrow>
          if q \<noteq> 0x22 then None
          else
            (case parse_chars s1 of
               None \<Rightarrow> None
             | Some (k, s2) \<Rightarrow>
                 (case skip_ws s2 of
                    [] \<Rightarrow> None
                  | colon # s3 \<Rightarrow>
                      if colon \<noteq> 0x3A then None
                      else
                        (case parse_value n s3 of
                           None \<Rightarrow> None
                         | Some (v, r) \<Rightarrow>
                             (case skip_ws r of
                                [] \<Rightarrow> None
                              | c # r' \<Rightarrow>
                                  if c = 0x2C then
                                    (case n of
                                       0 \<Rightarrow> None
                                     | Suc m \<Rightarrow>
                                         (case parse_members m r' of
                                            None \<Rightarrow> None
                                          | Some (ms, r'') \<Rightarrow> Some ((k, v) # ms, r'')))
                                  else if c = 0x7D then Some ([(k, v)], r')
                                  else None)))))"
  by pat_completeness auto
termination
  by (relation "measure (\<lambda>x. case x of Inl (n, s) \<Rightarrow> 2 * n
                            | Inr (Inl (n, s)) \<Rightarrow> 2 * n + 1
                            | Inr (Inr (n, s)) \<Rightarrow> 2 * n + 1)") auto

declare parse_value.simps [simp del] parse_elements.simps [simp del] parse_members.simps [simp del]

text \<open>\<^verbatim>\<open>JSON.parse(s)\<close>: one value, surrounded by white space only; \<open>None\<close> is a \<open>SyntaxError\<close>.\<close>

definition JSON_parse :: "jsstring \<Rightarrow> json option" where
  "JSON_parse s =
     (case parse_value (length s) s of
        None \<Rightarrow> None
      | Some (v, r) \<Rightarrow> if skip_ws r = [] then Some v else None)"

section \<open>Text functions\<close>

text \<open>
  The white space of \<^verbatim>\<open>String.prototype.trim\<close> and of the class \<^verbatim>\<open>\s\<close> of a regular
  expression: the white space and line terminator code points.
\<close>

definition isWhiteSpace :: "jschar \<Rightarrow> bool" where
  "isWhiteSpace c =
     ((0x09 \<le> c \<and> c \<le> 0x0D) \<or> c = 0x20 \<or> c = 0xA0 \<or> c = 0x1680
      \<or> (0x2000 \<le> c \<and> c \<le> 0x200A) \<or> c = 0x2028 \<or> c = 0x2029 \<or> c = 0x202F
      \<or> c = 0x205F \<or> c = 0x3000 \<or> c = 0xFEFF)"

definition trim :: "jsstring \<Rightarrow> jsstring" where
  "trim s = rev (dropWhile isWhiteSpace (rev (dropWhile isWhiteSpace s)))"

text \<open>\<^verbatim>\<open>s.split('\n')\<close>\<close>

fun split_newline :: "jsstring \<Rightarrow> jsstring list" where
  "split_newline [] = [[]]"
| "split_newline (c # cs) =
     (if c = 0x0A then [] # split_newline cs
      else (case split_newline cs of [] \<Rightarrow> [[c]] | l # ls \<Rightarrow> (c # l) # ls))"

text \<open>
  The two regular expressions of line 818 are an opening fence (three backquotes, with
  or without \<^verbatim>\<open>json\<close>), \<^verbatim>\<open>\s*\<close>, a lazy group \<^verbatim>\<open>([\s\S]*?)\<close>, \<^verbatim>\<open>\s*\<close> and a
  closing fence. \<open>closes s\<close> holds when \<open>s\<close> is white space followed by a fence.
  \<open>lazy_capture s\<close> is the shortest prefix of \<open>s\<close> after which the text closes.
  \<open>match_at\<close> matches at the start of the text: the greedy \<^verbatim>\<open>\s*\<close> takes all the white
  space after the opening fence (a shorter choice matches only where the longest one
  does, since the skipped white space would have to be followed by the closing fence).
  \<open>regex_group\<close> is the group of the leftmost match, as \<^verbatim>\<open>String.prototype.match\<close>
  returns it.
\<close>

definition fence :: jsstring where
  "fence = [0x60, 0x60, 0x60]"

definition closes :: "jsstring \<Rightarrow> bool" where
  "closes s = prefix fence (dropWhile isWhiteSpace s)"

fun lazy_capture :: "jsstring \<Rightarrow> jsstring option" where
  "lazy_capture [] = (if closes [] then Some [] else None)"
| "lazy_capture (c # cs) =
     (if closes (c # cs) then Some []
      else (case lazy_capture cs of None \<Rightarrow> None | Some g \<Rightarrow> Some (c # g)))"

definition match_at :: "jsstring \<Rightarrow> jsstring \<Rightarrow> jsstring option" where
  "match_at opener s =
     (if prefix opener s then lazy_capture (dropWhile isWhiteSpace (drop (length opener) s))
      else None)"

fun regex_group :: "jsstring \<Rightarrow> jsstring \<Rightarrow> jsstring option" where
  "regex_group opener [] = match_at opener []"
| "regex_group opener (c # cs) =
     (case match_at opener (c # cs) of Some g \<Rightarrow> Some g | None \<Rightarrow> regex_group opener cs)"

section \<open>The store and the environment\<close>

text \<open>
  The two fields of the user's document that the component reads and writes:
  the checkpoint pointer and the mapping from timestamps to serialised advice.
  \<open>None\<close> is a field the document does not have.
\<close>

record UserData =
  mostRecentInsightsTimestamp :: "jsstring option"
  previousAdvice :: "(jsstring \<times> jsstring) list option"

text \<open>
  The outcome of the \<^verbatim>\<open>fetch\<close> call: a rejected promise with its message, or a response
  with its \<^verbatim>\<open>ok\<close> flag, status text and body.
\<close>

datatype fetch_result = Rejected jsstring | Response bool jsstring jsstring

text \<open>
  Everything outside the component during one run of \<^verbatim>\<open>handleGetAdvice\<close>: the signed-in
  user (\<open>None\<close> when signed out), the API key of the build, which of the store calls
  reject, the outcome of the request, the clock readings, and the messages the runtime
  gives to its own exceptions.
\<close>

record Env =
  user :: "jsstring option"
  apiKey :: "jsstring option"
  fetchTimestampFails :: bool
  fetchPreviousFails :: bool
  saveReadFails :: bool
  saveWriteFails :: bool
  fetchResult :: fetch_result
  formatClock :: "nat \<Rightarrow> jsstring"
  saveClock :: jsstring
  typeErrorMessage :: jsstring
  syntaxErrorMessage :: jsstring

definition error_message :: "Env \<Rightarrow> js_error \<Rightarrow> jsstring" where
  "error_message env e =
     (case e of Error m \<Rightarrow> m | TypeError \<Rightarrow> typeErrorMessage env | SyntaxError \<Rightarrow> syntaxErrorMessage env)"

text \<open>The component's state: \<^verbatim>\<open>advice\<close> (\<open>JNull\<close> is \<^verbatim>\<open>null\<close>), \<^verbatim>\<open>error\<close> and \<^verbatim>\<open>loading\<close>.\<close>

record UI =
  advice :: json
  error :: "jsstring option"
  loading :: bool

text \<open>The advice record as the object \<^verbatim>\<open>generateLocalAdvice\<close> returns.\<close>

definition adviceObject :: "AdviceRecord \<Rightarrow> json" where
  "adviceObject r =
     JObject [(js ''insights'', JArray (map JString (insights r))),
              (js ''recommendations'', JArray (map JString (recommendations r))),
              (js ''summary'', JString (summary r))]"

section \<open>Persisting (lines 608--636)\<close>

text \<open>
  \<^verbatim>\<open>
  if (!user) return;
  try {
    const userDoc = await getDoc(userDocRef);
    if (userDoc.exists()) {
      const userData = userDoc.data();
      const currentPreviousAdvice = userData.previousAdvice || {};
      const timestamp = new Date().toISOString();
      const adviceString = JSON.stringify(adviceData);
      await updateDoc(userDocRef, {
        mostRecentInsightsTimestamp: timestamp,
        previousAdvice: { ...currentPreviousAdvice, [timestamp]: adviceString },
      });
    }
  } catch (error) { console.error(...); }
  \<close>
  The function returns the document after the call. A rejected read or write leaves it
  as it was.
\<close>

definition saveInsightsToFirestore :: "Env \<Rightarrow> json \<Rightarrow> UserData option \<Rightarrow> UserData option" where
  "saveInsightsToFirestore env adviceData doc =
     (if user env = None then doc
      else if saveReadFails env then doc
      else
        (case doc of
           None \<Rightarrow> doc
         | Some userData \<Rightarrow>
             (let currentPreviousAdvice = (case previousAdvice userData of None \<Rightarrow> [] | Some m \<Rightarrow> m);
                  timestamp = saveClock env;
                  adviceString = JSON_stringify adviceData
              in if saveWriteFails env then doc
                 else Some (userData\<lparr> mostRecentInsightsTimestamp := Some timestamp,
                                      previousAdvice :=
                                        Some (AList.update timestamp adviceString currentPreviousAdvice) \<rparr>))))"

section \<open>The advice pipeline (lines 638--851)\<close>

definition noActionsMessage :: jsstring where
  "noActionsMessage = js ''No user actions available. Please record some actions first.''"

definition noNewActionsMessage :: jsstring where
  "noNewActionsMessage =
     js ''No new actions since your last insights. Add some new actions to get updated insights!''"

text \<open>
  Lines 656--670: the checkpoint \<^verbatim>\<open>userData.mostRecentInsightsTimestamp || null\<close>, or
  \<^verbatim>\<open>null\<close> when nobody is signed in, the read rejects or the document does not exist.
\<close>

definition checkpointTimestamp :: "Env \<Rightarrow> UserData option \<Rightarrow> jsstring option" where
  "checkpointTimestamp env doc =
     (if user env = None then None
      else if fetchTimestampFails env then None
      else (case doc of
              None \<Rightarrow> None
            | Some userData \<Rightarrow> or_string (mostRecentInsightsTimestamp userData) None))"

text \<open>
  \<^verbatim>\<open>previousAdvice[key]\<close> on the plain object that holds the advice mapping: the value of
  the object's own property, or, when the object has no such property, the property it
  inherits from \<^verbatim>\<open>Object.prototype\<close> under one of that object's names (a function, or the
  prototype itself for \<^verbatim>\<open>__proto__\<close>), or \<^verbatim>\<open>undefined\<close>. The names are those of ECMA-262
  with its annex for browsers.
\<close>

definition Object_prototype_names :: "jsstring list" where
  "Object_prototype_names =
     [js ''constructor'', js ''hasOwnProperty'', js ''isPrototypeOf'',
      js ''propertyIsEnumerable'', js ''toLocaleString'', js ''toString'', js ''valueOf'',
      js ''__proto__'', js ''__defineGetter__'', js ''__defineSetter__'',
      js ''__lookupGetter__'', js ''__lookupSetter__'']"

datatype lookup = Undefined | Own jsstring | Inherited

definition getProperty :: "(jsstring \<times> jsstring) list \<Rightarrow> jsstring \<Rightarrow> lookup" where
  "getProperty obj key =
     (case map_of obj key of
        Some v \<Rightarrow> Own v
      | None \<Rightarrow> if key \<in> set Object_prototype_names then Inherited else Undefined)"

text \<open>
  Lines 686--719: the stored advice shown when nothing is new. The result is the value
  passed to \<^verbatim>\<open>setAdvice\<close>, or \<open>None\<close> when \<^verbatim>\<open>setAdvice\<close> is not called (the read
  rejects, the document does not exist, no entry is found, or \<^verbatim>\<open>JSON.parse\<close> throws).
  An inherited property is truthy and is not a string: \<^verbatim>\<open>JSON.parse\<close> converts it to
  text that is not JSON and throws.
  \<^verbatim>\<open>
  const previousAdvice = userData.previousAdvice || {};
  const mostRecentAdviceString = previousAdvice[mostRecentInsightsTimestamp];
  if (mostRecentAdviceString) {
    setAdvice(JSON.parse(mostRecentAdviceString));
  } else {
    const adviceTimestamps = Object.keys(previousAdvice).sort().reverse();
    if (adviceTimestamps.length > 0) {
      setAdvice(JSON.parse(previousAdvice[adviceTimestamps[0]]));
    }
  }
  \<close>
\<close>

definition latestAdvice :: "(jsstring \<times> jsstring) list \<Rightarrow> json option" where
  "latestAdvice adviceMap =
     (case rev (sort (map fst adviceMap)) of
        [] \<Rightarrow> None
      | k # _ \<Rightarrow> (case map_of adviceMap k of None \<Rightarrow> None | Some b \<Rightarrow> JSON_parse b))"

definition storedAdvice :: "Env \<Rightarrow> UserData option \<Rightarrow> jsstring \<Rightarrow> json option" where
  "storedAdvice env doc ts =
     (if user env = None \<or> fetchPreviousFails env then None
      else
        (case doc of
           None \<Rightarrow> None
         | Some userData \<Rightarrow>
             (let adviceMap = (case previousAdvice userData of None \<Rightarrow> [] | Some m \<Rightarrow> m)
              in case getProperty adviceMap ts of
                   Own mostRecentAdviceString \<Rightarrow>
                     if mostRecentAdviceString \<noteq> [] then JSON_parse mostRecentAdviceString
                     else latestAdvice adviceMap
                 | Inherited \<Rightarrow> None
                 | Undefined \<Rightarrow> latestAdvice adviceMap)))"

text \<open>
  Property access on a JSON value that is neither \<^verbatim>\<open>null\<close> nor \<^verbatim>\<open>undefined\<close>:
  \<open>property k v\<close> for the names \<^verbatim>\<open>candidates\<close>, \<^verbatim>\<open>content\<close>, \<^verbatim>\<open>parts\<close> and \<^verbatim>\<open>text\<close> (only
  an object can have them), \<open>index0 v\<close> for \<^verbatim>\<open>v[0]\<close>. \<open>None\<close> is \<^verbatim>\<open>undefined\<close>.
  \<open>opt_chain\<close> is the operator \<^verbatim>\<open>?.\<close>.
\<close>

definition property :: "jsstring \<Rightarrow> json \<Rightarrow> json option" where
  "property k v = (case v of JObject ms \<Rightarrow> map_of ms k | _ \<Rightarrow> None)"

definition index0 :: "json \<Rightarrow> json option" where
  "index0 v =
     (case v of
        JArray xs \<Rightarrow> (case xs of [] \<Rightarrow> None | x # _ \<Rightarrow> Some x)
      | JString s \<Rightarrow> (case s of [] \<Rightarrow> None | c # _ \<Rightarrow> Some (JString [c]))
      | JObject ms \<Rightarrow> map_of ms (js ''0'')
      | _ \<Rightarrow> None)"

definition opt_chain :: "json option \<Rightarrow> (json \<Rightarrow> json option) \<Rightarrow> json option" where
  "opt_chain x f = (case x of None \<Rightarrow> None | Some v \<Rightarrow> (case v of JNull \<Rightarrow> None | _ \<Rightarrow> f v))"

text \<open>A number literal denotes zero when every digit before the exponent is \<open>0\<close>.\<close>

definition zero_literal :: "jsstring \<Rightarrow> bool" where
  "zero_literal lit =
     list_all (\<lambda>c. c = 0x30 \<or> c = 0x2D \<or> c = 0x2E) (takeWhile (\<lambda>c. c \<noteq> 0x65 \<and> c \<noteq> 0x45) lit)"

definition truthy_json :: "json \<Rightarrow> bool" where
  "truthy_json v =
     (case v of
        JNull \<Rightarrow> False
      | JBool b \<Rightarrow> b
      | JNumber lit \<Rightarrow> \<not> zero_literal lit
      | JString s \<Rightarrow> s \<noteq> []
      | JArray xs \<Rightarrow> True
      | JObject ms \<Rightarrow> True)"

text \<open>
  Line 812: \<^verbatim>\<open>geminiData.candidates?.[0]?.content?.parts?.[0]?.text || ''\<close>. The first
  access is not optional: it raises a \<open>TypeError\<close> on \<^verbatim>\<open>null\<close>.
\<close>

definition responseTextOf :: "json \<Rightarrow> js_error + json" where
  "responseTextOf geminiData =
     (case geminiData of
        JNull \<Rightarrow> Inl TypeError
      | _ \<Rightarrow>
          (case opt_chain (opt_chain (opt_chain (opt_chain (opt_chain
                  (property (js ''candidates'') geminiData) index0) (property (js ''content'')))
                  (property (js ''parts''))) index0) (property (js ''text'')) of
             None \<Rightarrow> Inr (JString [])
           | Some t \<Rightarrow> Inr (if truthy_json t then t else JString [])))"

text \<open>
  Lines 815--828. A text that is a string is searched for a fenced block, trimmed and
  parsed; when \<^verbatim>\<open>JSON.parse\<close> throws, the advice is the raw text as \<^verbatim>\<open>message\<close> with its
  first five non-blank lines as \<^verbatim>\<open>insights\<close>. A text that is not a string has no
  \<^verbatim>\<open>match\<close> and no \<^verbatim>\<open>split\<close> method: the \<open>TypeError\<close> of the handler leaves the block.
  \<^verbatim>\<open>
  try {
    const jsonMatch = responseText.match(/```json\s*([\s\S]*?)\s*```/)
                   || responseText.match(/```\s*([\s\S]*?)\s*```/);
    const jsonText = jsonMatch ? jsonMatch[1] : responseText;
    adviceData = JSON.parse(jsonText.trim());
  } catch (parseError) {
    adviceData = {
      message: responseText,
      insights: responseText.split('\n').filter(line => line.trim().length > 0).slice(0, 5),
    };
  }
  \<close>
\<close>

definition rawAdvice :: "jsstring \<Rightarrow> json" where
  "rawAdvice responseText =
     JObject [(js ''message'', JString responseText),
              (js ''insights'',
               JArray (map JString
                 (take 5 (filter (\<lambda>line. 0 < length (trim line)) (split_newline responseText)))))]"

definition jsonTextOf :: "jsstring \<Rightarrow> jsstring" where
  "jsonTextOf text =
     (let jsonMatch =
            (case regex_group (fence @ js ''json'') text of
               Some g \<Rightarrow> Some g
             | None \<Rightarrow> regex_group fence text)
      in case jsonMatch of Some g \<Rightarrow> g | None \<Rightarrow> text)"

definition adviceOfText :: "json \<Rightarrow> js_error + json" where
  "adviceOfText responseText =
     (case responseText of
        JString text \<Rightarrow>
          (case JSON_parse (trim (jsonTextOf text)) of
             Some adviceData \<Rightarrow> Inr adviceData
           | None \<Rightarrow> Inr (rawAdvice text))
      | _ \<Rightarrow> Inl TypeError)"

text \<open>
  Lines 786--828: the request and what becomes of its response. \<open>Inl\<close> is an exception
  that reaches the handler of line 833; \<open>Inr\<close> is \<^verbatim>\<open>adviceData\<close>.
\<close>

definition requestAdvice :: "Env \<Rightarrow> js_error + json" where
  "requestAdvice env =
     (case fetchResult env of
        Rejected m \<Rightarrow> Inl (Error m)
      | Response ok statusText body \<Rightarrow>
          if \<not> ok then Inl (Error (js ''Gemini API error: '' @ statusText))
          else
            (case JSON_parse body of
               None \<Rightarrow> Inl SyntaxError
             | Some geminiData \<Rightarrow>
                 (case responseTextOf geminiData of
                    Inl e \<Rightarrow> Inl e
                  | Inr responseText \<Rightarrow> adviceOfText responseText)))"

text \<open>
  Lines 833--850: the handler. The statistics are those of the new actions. When the
  local generator itself throws, the message of the first error is shown.
\<close>

definition localFallback :: "Runtime \<Rightarrow> Env \<Rightarrow> js_error \<Rightarrow> FormattedAction list \<Rightarrow> UI \<times> UserData option \<Rightarrow> UI \<times> UserData option" where
  "localFallback rt env err fa st =
     (case st of
        (ui, doc) \<Rightarrow>
          (case generateLocalAdvice rt fa (totalScore fa) (avgScore fa) (highImpactActions fa)
                  (lowImpactActions fa) of
             Inr localAdvice \<Rightarrow>
               (ui\<lparr> advice := adviceObject localAdvice, error := None, loading := False \<rparr>,
                saveInsightsToFirestore env (adviceObject localAdvice) doc)
           | Inl fallbackError \<Rightarrow>
               (ui\<lparr> error :=
                      Some (if error_message env err \<noteq> [] then error_message env err
                            else js ''Failed to fetch personalized advice. Please try again.''),
                    loading := False \<rparr>,
                doc)))"

text \<open>
  \<^verbatim>\<open>handleGetAdvice\<close>: from the state of the component and the user's document before
  the call to both after it. The prompt is not modelled: it is only sent with the
  request, whose outcome is part of the environment.
\<close>

definition handleGetAdvice :: "Runtime \<Rightarrow> Env \<Rightarrow> UserAction list \<Rightarrow> UI \<times> UserData option \<Rightarrow> UI \<times> UserData option" where
  "handleGetAdvice rt env userActions st =
     (case st of
        (ui, doc) \<Rightarrow>
          if length userActions = 0 then (ui\<lparr> error := Some noActionsMessage \<rparr>, doc)
          else
            (let ui1 = ui\<lparr> advice := JNull, error := None, loading := True \<rparr>;
                 checkpoint = checkpointTimestamp env doc;
                 selected = newActions rt userActions checkpoint
             in if length selected = 0 then
                  (case checkpoint of
                     Some ts \<Rightarrow>
                       (ui1\<lparr> advice := (case storedAdvice env doc ts of None \<Rightarrow> JNull | Some v \<Rightarrow> v),
                             error := Some noNewActionsMessage,
                             loading := False \<rparr>,
                        doc)
                   | None \<Rightarrow> (ui1\<lparr> error := Some noActionsMessage, loading := False \<rparr>, doc))
                else
                  (let fa = formattedActions (formatClock env) selected
                   in if \<not> truthy_string (apiKey env) then
                        (case generateLocalAdvice rt fa (totalScore fa) (avgScore fa)
                                (highImpactActions fa) (lowImpactActions fa) of
                           Inr localAdvice \<Rightarrow>
                             (ui1\<lparr> advice := adviceObject localAdvice, loading := False \<rparr>,
                              saveInsightsToFirestore env (adviceObject localAdvice) doc)
                         | Inl e \<Rightarrow> localFallback rt env e fa (ui1, doc))
                      else
                        (case requestAdvice env of
                           Inr adviceData \<Rightarrow>
                             (ui1\<lparr> advice := adviceData, loading := False \<rparr>,
                              saveInsightsToFirestore env adviceData doc)
                         | Inl e \<Rightarrow> localFallback rt env e fa (ui1, doc)))))"

text \<open>
  An environment, a component state and a stored document for the examples: a signed-in
  user, no API key, no failing store call, and one advice record stored under the
  checkpoint of 1 January 2024.
\<close>

definition exampleEnv :: Env where
  "exampleEnv =
     \<lparr> user = Some (js ''uid-1''), apiKey = None,
       fetchTimestampFails = False, fetchPreviousFails = False,
       saveReadFails = False, saveWriteFails = False,
       fetchResult = Rejected (js ''Failed to fetch''),
       formatClock = (\<lambda>i. js ''2024-01-03T00:00:00.000Z''),
       saveClock = js ''2024-01-03T00:00:00.000Z'',
       typeErrorMessage = js ''TypeError'', syntaxErrorMessage = js ''SyntaxError'' \<rparr>"

definition idleUI :: UI where
  "idleUI = \<lparr> advice = JNull, error = None, loading = False \<rparr>"

definition exampleAdvice :: AdviceRecord where
  "exampleAdvice =
     \<lparr> insights = [js ''Driving dominates.''], recommendations = [js ''Take the bus.''],
       summary = js ''One action.'' \<rparr>"

definition exampleDoc :: UserData where
  "exampleDoc =
     \<lparr> mostRecentInsightsTimestamp = Some (js ''2024-01-01T00:00:00.000Z''),
       previousAdvice = Some [(js ''2024-01-01T00:00:00.000Z'', JSON_stringify (adviceObject exampleAdvice))] \<rparr>"

definition helloBody :: jsstring where
  "helloBody = js ''{\"candidates\":[{\"content\":{\"parts\":[{\"text\":\"Hello\"}]}}]}''"

text \<open>
  An environment whose second read of the document rejects, a document whose checkpoint
  has no entry in the advice mapping, actions recorded before the checkpoint, a response
  body whose candidate text is \<^verbatim>\<open>Hello\<close> with its parsed form, an environment whose
  request is answered with status 500, and one whose request is answered with that body.
\<close>

definition helloData :: json where
  "helloData =
     JObject [(js ''candidates'',
       JArray [JObject [(js ''content'',
         JObject [(js ''parts'', JArray [JObject [(js ''text'', JString (js ''Hello''))]])])]])]"




definition serverErrorEnv :: Env where
  "serverErrorEnv =
     exampleEnv\<lparr> apiKey := Some (js ''key''),
                 fetchResult := Response False (js ''Internal Server Error'') [] \<rparr>"

definition helloEnv :: Env where
  "helloEnv =
     exampleEnv\<lparr> apiKey := Some (js ''key''),
                 fetchResult := Response True (js ''OK'') helloBody \<rparr>"

text \<open>
  \<open>erase_timestamp\<close> forgets the only field of a formatted action that can hold a clock
  reading; it is used to state what the local generator does not depend on.
\<close>

definition erase_timestamp :: "FormattedAction \<Rightarrow> FormattedAction" where
  "erase_timestamp a = a\<lparr> timestamp' := [] \<rparr>"

section \<open>Checkpoint selection\<close>

lemma newActions_filter:
  "T \<noteq> [] \<Longrightarrow> newActions rt B (Some T) =
     filter (\<lambda>a. case actionTimestamp a of None \<Rightarrow> False
              | Some s \<Rightarrow> if s = [] then False else date_gt (Date_parse rt s) (Date_parse rt T)) B"
  by (simp add: newActions_def)

lemma date_gt_iff: "date_gt a b \<longleftrightarrow> (\<exists>x y. a = Some x \<and> b = Some y \<and> y < x)"
  by (auto simp: date_gt_def split: option.splits)

text \<open>
  Claim C1. With a checkpoint timestamp \<open>T\<close> (a non-empty string), the selection step
  returns exactly the actions whose timestamp is a valid date strictly after \<open>T\<close>, in
  input order; applying it again with the same \<open>T\<close> changes nothing; without a
  checkpoint timestamp it returns every action.
\<close>

theorem newActions_selects:
  assumes "T \<noteq> []"
  shows "newActions rt A (Some T) =
           filter (\<lambda>a. \<exists>s t t0. actionTimestamp a = Some s \<and> s \<noteq> [] \<and>
                    Date_parse rt s = Some t \<and> Date_parse rt T = Some t0 \<and> t0 < t) A
         \<and> subseq (newActions rt A (Some T)) A
         \<and> newActions rt (newActions rt A (Some T)) (Some T) = newActions rt A (Some T)
         \<and> newActions rt A None = A"
proof -
  have 1: "newActions rt A (Some T) =
           filter (\<lambda>a. \<exists>s t t0. actionTimestamp a = Some s \<and> s \<noteq> [] \<and>
                    Date_parse rt s = Some t \<and> Date_parse rt T = Some t0 \<and> t0 < t) A"
    unfolding newActions_filter [OF assms]
    by (rule filter_cong) (auto simp: date_gt_iff split: option.splits)
  have 2: "subseq (newActions rt A (Some T)) A"
    unfolding newActions_filter [OF assms] by simp
  have 3: "newActions rt (newActions rt A (Some T)) (Some T) = newActions rt A (Some T)"
    unfolding newActions_filter [OF assms] by simp
  have 4: "newActions rt A None = A"
    by (simp add: newActions_def)
  from 1 2 3 4 show ?thesis by blast
qed

theorem newActions_selects_witness:
  "newActions exampleRuntime
     [dashboardAction (js ''a'') 1 (js ''2024-01-02T00:00:00.000Z'') (js ''General''),
      dashboardAction (js ''b'') 2 (js ''2023-12-31T00:00:00.000Z'') (js ''General''),
      dashboardAction (js ''c'') 3 (js ''2024-01-01T00:00:00.000Z'') (js ''General'')]
     (Some (js ''2024-01-01T00:00:00.000Z''))
   = [dashboardAction (js ''a'') 1 (js ''2024-01-02T00:00:00.000Z'') (js ''General'')]"
proof -
  have ne: "js ''2024-01-01T00:00:00.000Z'' \<noteq> []"
    by (simp add: js_def)
  show ?thesis
    using newActions_selects [OF ne, of exampleRuntime
      "[dashboardAction (js ''a'') 1 (js ''2024-01-02T00:00:00.000Z'') (js ''General''),
        dashboardAction (js ''b'') 2 (js ''2023-12-31T00:00:00.000Z'') (js ''General''),
        dashboardAction (js ''c'') 3 (js ''2024-01-01T00:00:00.000Z'') (js ''General'')]"]
    by (simp add: dashboardAction_def exampleRuntime_def actionTimestamp_def or_string_def
        truthy_string_def js_def)
qed

text \<open>
  Claim C10. With a checkpoint timestamp, an action that has neither a \<^verbatim>\<open>timestamp\<close>
  nor a \<^verbatim>\<open>date\<close> is never selected, and removing it from the input does not change the
  selection.
\<close>

theorem newActions_drops_untimed:
  assumes "T \<noteq> []" and "\<not> truthy_string (timestamp a)" and "\<not> truthy_string (date a)"
  shows "a \<notin> set (newActions rt A (Some T))
         \<and> newActions rt (xs @ a # ys) (Some T) = newActions rt (xs @ ys) (Some T)"
  using assms
  by (auto simp: newActions_def actionTimestamp_def or_string_def truthy_string_def
      split: option.splits)

theorem newActions_drops_untimed_witness:
  "\<not> truthy_string (timestamp ((dashboardAction (js ''c'') 3 [] (js ''General''))\<lparr>date := None\<rparr>))
   \<and> newActions exampleRuntime
       [dashboardAction (js ''a'') 1 (js ''2024-01-02T00:00:00.000Z'') (js ''General''),
        (dashboardAction (js ''c'') 3 [] (js ''General''))\<lparr>date := None\<rparr>]
       (Some (js ''2024-01-01T00:00:00.000Z''))
     = newActions exampleRuntime
         [dashboardAction (js ''a'') 1 (js ''2024-01-02T00:00:00.000Z'') (js ''General'')]
         (Some (js ''2024-01-01T00:00:00.000Z''))"
proof -
  have ne: "js ''2024-01-01T00:00:00.000Z'' \<noteq> []"
    by (simp add: js_def)
  have t: "\<not> truthy_string (timestamp ((dashboardAction (js ''c'') 3 [] (js ''General''))\<lparr>date := None\<rparr>))"
    by (simp add: dashboardAction_def truthy_string_def)
  have d: "\<not> truthy_string (date ((dashboardAction (js ''c'') 3 [] (js ''General''))\<lparr>date := None\<rparr>))"
    by (simp add: dashboardAction_def truthy_string_def)
  show ?thesis
    using newActions_drops_untimed [OF ne t d, of exampleRuntime A
      "[dashboardAction (js ''a'') 1 (js ''2024-01-02T00:00:00.000Z'') (js ''General'')]" "[]"] t
    by simp
qed

section \<open>Statistics\<close>

text \<open>
  Claim C4, as amended. On the two new actions with scores \<open>10\<close> and \<open>-5\<close> the total is
  \<open>5\<close>, the mean is \<open>2.5\<close>, no action is in the high-impact list, and both actions are in
  the low-impact list (both scores are below \<open>25\<close>).
\<close>

theorem scenario2_statistics:
  "length (formattedActions clock (newActions exampleRuntime scenario2_actions (Some scenario2_checkpoint))) = 2
   \<and> totalScore (formattedActions clock (newActions exampleRuntime scenario2_actions (Some scenario2_checkpoint))) = Num 5
   \<and> avgScore (formattedActions clock (newActions exampleRuntime scenario2_actions (Some scenario2_checkpoint))) = Num (5 / 2)
   \<and> highImpactActions (formattedActions clock (newActions exampleRuntime scenario2_actions (Some scenario2_checkpoint))) = []
   \<and> lowImpactActions (formattedActions clock (newActions exampleRuntime scenario2_actions (Some scenario2_checkpoint)))
       = formattedActions clock (newActions exampleRuntime scenario2_actions (Some scenario2_checkpoint))"
  by (simp add: scenario2_actions_def scenario2_checkpoint_def dashboardAction_def
      exampleRuntime_def newActions_def actionTimestamp_def or_string_def truthy_string_def
      date_gt_def js_def totalScore_def avgScore_def highImpactActions_def lowImpactActions_def
      formattedActions_def formatAction_def or_number_def or_number_default_def
      truthy_number_def jslt_def)

text \<open>
  The claim as the specification states it (both actions in neither list) is false: the
  low-impact list is not empty.
\<close>

theorem scenario2_not_neither:
  "\<not> (totalScore (formattedActions (\<lambda>i. []) (newActions exampleRuntime scenario2_actions (Some scenario2_checkpoint))) = Num 5
      \<and> avgScore (formattedActions (\<lambda>i. []) (newActions exampleRuntime scenario2_actions (Some scenario2_checkpoint))) = Num (5 / 2)
      \<and> highImpactActions (formattedActions (\<lambda>i. []) (newActions exampleRuntime scenario2_actions (Some scenario2_checkpoint))) = []
      \<and> lowImpactActions (formattedActions (\<lambda>i. []) (newActions exampleRuntime scenario2_actions (Some scenario2_checkpoint))) = [])"
  by (simp add: scenario2_actions_def scenario2_checkpoint_def dashboardAction_def
      exampleRuntime_def newActions_def actionTimestamp_def or_string_def truthy_string_def
      date_gt_def js_def lowImpactActions_def
      formattedActions_def formatAction_def or_number_def or_number_default_def
      truthy_number_def jslt_def)

lemma formatted_score_not_NaN: "sustainabilityScore' (formatAction now a) \<noteq> NaN"
  by (auto simp: formatAction_def or_number_default_def split: option.splits)

lemma formattedActions_not_NaN:
  "x \<in> set (formattedActions clock acts) \<Longrightarrow> sustainabilityScore' x \<noteq> NaN"
  by (auto simp: formattedActions_def formatted_score_not_NaN)

lemma score_trichotomy:
  assumes "n \<noteq> NaN"
  shows "(jsgt n (Num 50) \<and> \<not> jslt n (Num 25) \<and> \<not> (\<exists>r. n = Num r \<and> 25 \<le> r \<and> r \<le> 50))
       \<or> (\<not> jsgt n (Num 50) \<and> jslt n (Num 25) \<and> \<not> (\<exists>r. n = Num r \<and> 25 \<le> r \<and> r \<le> 50))
       \<or> (\<not> jsgt n (Num 50) \<and> \<not> jslt n (Num 25) \<and> (\<exists>r. n = Num r \<and> 25 \<le> r \<and> r \<le> 50))"
  using assms by (cases n) (auto simp: jslt_def)

lemma mset_three_filters:
  assumes "\<And>x. x \<in> set xs \<Longrightarrow>
             (P x \<and> \<not> Q x \<and> \<not> R x) \<or> (\<not> P x \<and> Q x \<and> \<not> R x) \<or> (\<not> P x \<and> \<not> Q x \<and> R x)"
  shows "mset (filter P xs) + mset (filter Q xs) + mset (filter R xs) = mset xs"
  using assms by (induction xs) auto

text \<open>
  Claim C5. For every list of new actions, no formatted action is in both the
  high-impact and the low-impact list, and the two lists together with the actions whose
  score lies between \<open>25\<close> and \<open>50\<close> contain every formatted action exactly once.
\<close>

theorem impact_buckets_partition:
  "set (highImpactActions (formattedActions clock acts))
     \<inter> set (lowImpactActions (formattedActions clock acts)) = {}
   \<and> mset (highImpactActions (formattedActions clock acts))
     + mset (lowImpactActions (formattedActions clock acts))
     + mset (filter (\<lambda>a. \<exists>r. sustainabilityScore' a = Num r \<and> 25 \<le> r \<and> r \<le> 50)
              (formattedActions clock acts))
     = mset (formattedActions clock acts)"
proof -
  let ?fa = "formattedActions clock acts"
  have tri: "(jsgt (sustainabilityScore' x) (Num 50) \<and> \<not> jslt (sustainabilityScore' x) (Num 25)
               \<and> \<not> (\<exists>r. sustainabilityScore' x = Num r \<and> 25 \<le> r \<and> r \<le> 50))
           \<or> (\<not> jsgt (sustainabilityScore' x) (Num 50) \<and> jslt (sustainabilityScore' x) (Num 25)
               \<and> \<not> (\<exists>r. sustainabilityScore' x = Num r \<and> 25 \<le> r \<and> r \<le> 50))
           \<or> (\<not> jsgt (sustainabilityScore' x) (Num 50) \<and> \<not> jslt (sustainabilityScore' x) (Num 25)
               \<and> (\<exists>r. sustainabilityScore' x = Num r \<and> 25 \<le> r \<and> r \<le> 50))"
    if "x \<in> set ?fa" for x
    using score_trichotomy [OF formattedActions_not_NaN [OF that]] .
  have disj: "set (highImpactActions ?fa) \<inter> set (lowImpactActions ?fa) = {}"
    using tri by (auto simp: highImpactActions_def lowImpactActions_def)
  have part: "mset (highImpactActions ?fa) + mset (lowImpactActions ?fa)
      + mset (filter (\<lambda>a. \<exists>r. sustainabilityScore' a = Num r \<and> 25 \<le> r \<and> r \<le> 50) ?fa)
      = mset ?fa"
    unfolding highImpactActions_def lowImpactActions_def
    by (rule mset_three_filters) (rule tri)
  from disj part show ?thesis by simp
qed

section \<open>The local advice generator\<close>

lemma generateLocalAdvice_returns:
  "\<exists>r. generateLocalAdvice rt actions tot avg high low = Inr r
       \<and> insights r \<noteq> [] \<and> length (insights r) \<le> 5
       \<and> recommendations r \<noteq> [] \<and> length (recommendations r) \<le> 5"
proof (cases high)
  case Nil
  then show ?thesis
    by (simp add: generateLocalAdvice_def highImpactInsights_def lowImpactInsights_def
        transportInsights_def localRecommendations_def Let_def)
next
  case (Cons a0 rest)
  then show ?thesis
    by (simp add: generateLocalAdvice_def highImpactInsights_def lowImpactInsights_def
        transportInsights_def localRecommendations_def Let_def)
qed


text \<open>
  Claim C6. For every list of actions, every total and mean (zero, negative, infinite or
  \<open>NaN\<close>) and every high-impact and low-impact list (empty or not), the local generator
  returns an advice record and raises no exception; the record has between one and five
  insights and between one and five recommendations.
\<close>

theorem generateLocalAdvice_never_fails:
  "\<exists>r. generateLocalAdvice rt actions tot avg high low = Inr r
       \<and> insights r \<noteq> [] \<and> length (insights r) \<le> 5
       \<and> recommendations r \<noteq> [] \<and> length (recommendations r) \<le> 5"
proof -
  obtain lines where h: "highImpactInsights rt high = Inr lines"
    by (cases high) (simp_all add: highImpactInsights_def)
  let ?r = "\<lparr> insights =
                  take 5 (lines @ lowImpactInsights low @ transportInsights rt actions tot
                    @ [js ''Your average carbon impact per action is '' @ toFixed1 rt avg
                         @ kgCO2 @ js ''.'']),
                recommendations = take 5 (localRecommendations rt actions avg high),
                summary = localSummary rt actions tot high \<rparr>"
  have r: "generateLocalAdvice rt actions tot avg high low = Inr ?r"
    by (simp add: generateLocalAdvice_def h)
  have "localRecommendations rt actions avg high \<noteq> []"
    by (simp add: localRecommendations_def)
  then have "insights ?r \<noteq> [] \<and> length (insights ?r) \<le> 5
      \<and> recommendations ?r \<noteq> [] \<and> length (recommendations ?r) \<le> 5"
    by simp
  with r show ?thesis by blast
qed

section \<open>The recursion bound of the parser\<close>

text \<open>
  Every successful parse consumes at least one code unit, and a bound of at least the
  length of the text gives the same result as any larger bound: \<open>JSON_parse\<close> never
  fails for lack of recursion depth.
\<close>

lemma length_skip_ws: "length (skip_ws s) \<le> length s"
  by (simp add: skip_ws_def length_dropWhile_le)

lemma parse_chars_shorter_all:
  "\<forall>t r. parse_chars s = Some (t, r) \<longrightarrow> length r < length s"
proof (induction s rule: parse_chars.induct)
  case 1
  show ?case by simp
next
  case (2 c cs)
  show ?case
  proof (intro allI impI)
    fix t r
    assume a: "parse_chars (c # cs) = Some (t, r)"
    show "length r < length (c # cs)"
    proof (cases "c = 0x22")
      case True
      with a show ?thesis by simp
    next
      case nq: False
      show ?thesis
      proof (cases "c = 0x5C")
        case bs: True
        from a nq bs obtain e r0 where cs: "cs = e # r0"
          by (cases cs) auto
        show ?thesis
        proof (cases "e = 0x75")
          case True
          from a nq bs cs True obtain h1 h2 h3 h4 r' u s' where
            r0: "r0 = h1 # h2 # h3 # h4 # r'" and
            h: "hex4 h1 h2 h3 h4 = Some u" and
            p: "parse_chars r' = Some (s', r)"
            by (auto split: list.splits option.splits prod.splits)
          have "length r < length r'"
            using 2(1) [OF nq bs cs True r0 refl refl refl h] p by blast
          with cs r0 show ?thesis by simp
        next
          case False
          from a nq bs cs False obtain u s' where
            u: "unescape e = Some u" and p: "parse_chars r0 = Some (s', r)"
            by (auto split: option.splits prod.splits)
          have "length r < length r0"
            using 2(2) [OF nq bs cs False u] p by blast
          with cs show ?thesis by simp
        qed
      next
        case nb: False
        from a nq nb have nc: "\<not> c < 0x20" by (auto split: if_splits)
        from a nq nb nc obtain s' where p: "parse_chars cs = Some (s', r)"
          by (auto split: option.splits prod.splits)
        have "length r < length cs"
          using 2(3) [OF nq nb nc] p by blast
        then show ?thesis by simp
      qed
    qed
  qed
qed

lemma parse_chars_shorter: "parse_chars s = Some (t, r) \<Longrightarrow> length r < length s"
  using parse_chars_shorter_all by blast

lemma parse_digits_shorter: "parse_digits s = Some (ds, r) \<Longrightarrow> length r < length s"
proof -
  assume a: "parse_digits s = Some (ds, r)"
  then have "takeWhile is_digit s \<noteq> []" and r: "r = dropWhile is_digit s"
    by (auto simp: parse_digits_def split: list.splits)
  then have l: "0 < length (takeWhile is_digit s)" by blast
  have e: "length (takeWhile is_digit s) + length (dropWhile is_digit s) = length s"
    by (metis length_append takeWhile_dropWhile_id)
  show ?thesis using l e unfolding r by linarith
qed

lemma parse_int_part_shorter: "parse_int_part x = Some (i, y) \<Longrightarrow> length y < length x"
  using parse_digits_shorter [of x i y]
  by (auto simp: parse_int_part_def split: list.splits if_splits)

lemma parse_frac_part_shorter: "parse_frac_part x = Some (f, y) \<Longrightarrow> length y \<le> length x"
  using parse_digits_shorter [of "tl x" _ y]
  by (auto simp: parse_frac_part_def split: list.splits if_splits option.splits prod.splits)
     (fastforce+)?

lemma parse_exp_part_shorter: "parse_exp_part x = Some (e, y) \<Longrightarrow> length y \<le> length x"
  using parse_digits_shorter [of "tl x" _ y] parse_digits_shorter [of "tl (tl x)" _ y]
  by (auto simp: parse_exp_part_def split: list.splits if_splits option.splits prod.splits)
     (fastforce+)?

lemma parse_number_tail:
  assumes "(case parse_int_part s1 of
             None \<Rightarrow> None
           | Some (ip, s2) \<Rightarrow>
               (case parse_frac_part s2 of
                  None \<Rightarrow> None
                | Some (fp, s3) \<Rightarrow>
                    (case parse_exp_part s3 of
                       None \<Rightarrow> None
                     | Some (ep, s4) \<Rightarrow> Some (sg @ ip @ fp @ ep, s4)))) = Some (lit, r)"
  shows "length r < length s1"
proof -
  from assms obtain ip s2 where i: "parse_int_part s1 = Some (ip, s2)"
    by (cases "parse_int_part s1") auto
  from assms i obtain fp s3 where f: "parse_frac_part s2 = Some (fp, s3)"
    by (cases "parse_frac_part s2") auto
  from assms i f obtain ep s4 where e: "parse_exp_part s3 = Some (ep, s4)"
    by (cases "parse_exp_part s3") auto
  from assms i f e have "r = s4" by simp
  with parse_int_part_shorter [OF i] parse_frac_part_shorter [OF f] parse_exp_part_shorter [OF e]
  show ?thesis by simp
qed

lemma parse_number_shorter: "parse_number s = Some (lit, r) \<Longrightarrow> length r < length s"
proof (cases s)
  case Nil
  assume "parse_number s = Some (lit, r)"
  with Nil show ?thesis
    using parse_number_tail [where ?s1.0 = "[]" and sg = "[]" and lit = lit and r = r] by (simp add: parse_number_def)
next
  case (Cons c cs)
  assume a: "parse_number s = Some (lit, r)"
  show ?thesis
  proof (cases "c = 0x2D")
    case True
    with a Cons have "length r < length cs"
      using parse_number_tail [where ?s1.0 = cs and sg = "[0x2D]" and lit = lit and r = r] by (simp add: parse_number_def)
    with Cons show ?thesis by simp
  next
    case False
    with a Cons show ?thesis
      using parse_number_tail [where ?s1.0 = s and sg = "[]" and lit = lit and r = r] by (simp add: parse_number_def)
  qed
qed

lemma parse_scalar_shorter: "parse_scalar s = Some (v, r) \<Longrightarrow> length r < length s"
proof -
  assume a: "parse_scalar s = Some (v, r)"
  have len: "prefix (js w) s \<Longrightarrow> length w \<le> length s" for w
    using prefix_length_le [of "js w" s] by (simp add: js_def)
  show ?thesis
  proof (cases "prefix (js ''true'') s")
    case True
    with a have "r = drop 4 s" by (simp add: parse_scalar_def)
    with len [OF True] show ?thesis by simp
  next
    case nt: False
    show ?thesis
    proof (cases "prefix (js ''false'') s")
      case True
      with a nt have "r = drop 5 s" by (simp add: parse_scalar_def)
      with len [OF True] show ?thesis by simp
    next
      case nf: False
      show ?thesis
      proof (cases "prefix (js ''null'') s")
        case True
        with a nt nf have "r = drop 4 s" by (simp add: parse_scalar_def)
        with len [OF True] show ?thesis by simp
      next
        case False
        with a nt nf obtain lit where "parse_number s = Some (lit, r)"
          by (cases "parse_number s") (auto simp: parse_scalar_def)
        then show ?thesis by (rule parse_number_shorter)
      qed
    qed
  qed
qed

lemma skip_ws_Cons_shorter: "skip_ws s = c # cs \<Longrightarrow> length cs < length s"
  using length_skip_ws [of s] by simp

lemma skip_ws_Cons_le: "skip_ws s = c # cs \<Longrightarrow> length cs < length s \<and> Suc (length cs) \<le> length s"
  using length_skip_ws [of s] by simp

lemma parse_value_consumes_step:
  assumes el: "\<And>k cs vs r. n = Suc k \<Longrightarrow> parse_elements k cs = Some (vs, r) \<Longrightarrow> length r < length cs"
    and me: "\<And>k cs ms r. n = Suc k \<Longrightarrow> parse_members k cs = Some (ms, r) \<Longrightarrow> length r < length cs"
    and a: "parse_value n s = Some (v, r)"
  shows "length r < length s"
proof (cases "skip_ws s")
  case Nil
  with a show ?thesis by (simp add: parse_value.simps [of n s])
next
  case (Cons c cs)
  note len = skip_ws_Cons_shorter [OF Cons]
  note u = a [unfolded parse_value.simps [of n s]]
  show ?thesis
  proof (cases "c = 0x22")
    case True
    with u Cons obtain t where "parse_chars cs = Some (t, r)"
      by (cases "parse_chars cs") auto
    from parse_chars_shorter [OF this] len show ?thesis by simp
  next
    case nq: False
    show ?thesis
    proof (cases "c = 0x5B")
      case True
      with u Cons nq obtain k where n: "n = Suc k"
        by (cases n) auto
      from u Cons nq True n obtain d r0 where sk: "skip_ws cs = d # r0"
        by (cases "skip_ws cs") auto
      show ?thesis
      proof (cases "d = 0x5D")
        case True
        with u Cons nq \<open>c = 0x5B\<close> n sk have "r = r0"
          by simp
        with skip_ws_Cons_shorter [OF sk] len show ?thesis by simp
      next
        case False
        with u Cons nq \<open>c = 0x5B\<close> n sk obtain vs where "parse_elements k cs = Some (vs, r)"
          by (cases "parse_elements k cs") auto
        from el [OF n this] len show ?thesis by simp
      qed
    next
      case nb: False
      show ?thesis
      proof (cases "c = 0x7B")
        case True
        with u Cons nq nb obtain k where n: "n = Suc k"
          by (cases n) auto
        from u Cons nq nb True n obtain d r0 where sk: "skip_ws cs = d # r0"
          by (cases "skip_ws cs") auto
        show ?thesis
        proof (cases "d = 0x7D")
          case True
          with u Cons nq nb \<open>c = 0x7B\<close> n sk have "r = r0"
            by simp
          with skip_ws_Cons_shorter [OF sk] len show ?thesis by simp
        next
          case False
          with u Cons nq nb \<open>c = 0x7B\<close> n sk obtain ms where "parse_members k cs = Some (ms, r)"
            by (cases "parse_members k cs") auto
          from me [OF n this] len show ?thesis by simp
        qed
      next
        case False
        with u Cons nq nb have "parse_scalar (c # cs) = Some (v, r)"
          by simp
        from parse_scalar_shorter [OF this] len show ?thesis by simp
      qed
    qed
  qed
qed

lemma parse_elements_consumes_step:
  assumes va: "\<And>s v r. parse_value n s = Some (v, r) \<Longrightarrow> length r < length s"
    and el: "\<And>k cs vs r. n = Suc k \<Longrightarrow> parse_elements k cs = Some (vs, r) \<Longrightarrow> length r < length cs"
    and a: "parse_elements n s = Some (vs, r)"
  shows "length r < length s"
proof -
  note u = a [unfolded parse_elements.simps [of n s]]
  from u obtain v r1 where v: "parse_value n s = Some (v, r1)"
    by (cases "parse_value n s") auto
  from u v obtain c r' where sk: "skip_ws r1 = c # r'"
    by (cases "skip_ws r1") auto
  note l1 = va [OF v]
  note l2 = skip_ws_Cons_shorter [OF sk]
  show ?thesis
  proof (cases "c = 0x2C")
    case True
    with u v sk obtain k where n: "n = Suc k"
      by (cases n) auto
    from u v sk True n obtain ws where "parse_elements k r' = Some (ws, r)"
      by (cases "parse_elements k r'") auto
    from el [OF n this] l1 l2 show ?thesis by simp
  next
    case False
    with u v sk have "r = r'"
      by (auto split: if_splits)
    with l1 l2 show ?thesis by simp
  qed
qed

lemma parse_members_consumes_step:
  assumes va: "\<And>s v r. parse_value n s = Some (v, r) \<Longrightarrow> length r < length s"
    and me: "\<And>k cs ms r. n = Suc k \<Longrightarrow> parse_members k cs = Some (ms, r) \<Longrightarrow> length r < length cs"
    and a: "parse_members n s = Some (ms, r)"
  shows "length r < length s"
proof -
  note u = a [unfolded parse_members.simps [of n s]]
  from u obtain q s1 where s0: "skip_ws s = q # s1"
    by (cases "skip_ws s") auto
  from u s0 have q: "q = 0x22"
    by (auto split: if_splits)
  from u s0 q obtain k0 s2 where pc: "parse_chars s1 = Some (k0, s2)"
    by (cases "parse_chars s1") auto
  from u s0 q pc obtain colon s3 where s2: "skip_ws s2 = colon # s3"
    by (cases "skip_ws s2") auto
  from u s0 q pc s2 have colon: "colon = 0x3A"
    by (auto split: if_splits)
  from u s0 q pc s2 colon obtain v r1 where v: "parse_value n s3 = Some (v, r1)"
    by (cases "parse_value n s3") auto
  from u s0 q pc s2 colon v obtain c r' where sk: "skip_ws r1 = c # r'"
    by (cases "skip_ws r1") auto
  have l: "length r' < length s"
    using skip_ws_Cons_shorter [OF s0] parse_chars_shorter [OF pc] skip_ws_Cons_shorter [OF s2]
      va [OF v] skip_ws_Cons_shorter [OF sk] by simp
  show ?thesis
  proof (cases "c = 0x2C")
    case True
    with u s0 q pc s2 colon v sk obtain k where n: "n = Suc k"
      by (cases n) auto
    from u s0 q pc s2 colon v sk True n obtain ws where "parse_members k r' = Some (ws, r)"
      by (cases "parse_members k r'") auto
    from me [OF n this] l show ?thesis by simp
  next
    case False
    with u s0 q pc s2 colon v sk have "r = r'"
      by (auto split: if_splits)
    with l show ?thesis by simp
  qed
qed

lemma parser_consumes:
  "(\<forall>s v r. parse_value n s = Some (v, r) \<longrightarrow> length r < length s)
   \<and> (\<forall>s vs r. parse_elements n s = Some (vs, r) \<longrightarrow> length r < length s)
   \<and> (\<forall>s ms r. parse_members n s = Some (ms, r) \<longrightarrow> length r < length s)"
proof (induction n)
  case 0
  have va: "parse_value 0 s = Some (v, r) \<Longrightarrow> length r < length s" for s v r
    by (rule parse_value_consumes_step [of 0]) simp_all
  have "parse_elements 0 s = Some (vs, r) \<Longrightarrow> length r < length s" for s vs r
    by (rule parse_elements_consumes_step [of 0]) (simp_all add: va)
  moreover have "parse_members 0 s = Some (ms, r) \<Longrightarrow> length r < length s" for s ms r
    by (rule parse_members_consumes_step [of 0]) (simp_all add: va)
  ultimately show ?case using va by blast
next
  case (Suc n)
  have va: "parse_value (Suc n) s = Some (v, r) \<Longrightarrow> length r < length s" for s v r
    by (rule parse_value_consumes_step [of "Suc n"]) (use Suc in auto)
  have "parse_elements (Suc n) s = Some (vs, r) \<Longrightarrow> length r < length s" for s vs r
    by (rule parse_elements_consumes_step [of "Suc n"]) (use Suc va in auto)
  moreover have "parse_members (Suc n) s = Some (ms, r) \<Longrightarrow> length r < length s" for s ms r
    by (rule parse_members_consumes_step [of "Suc n"]) (use Suc va in auto)
  ultimately show ?case using va by blast
qed

lemma parse_value_consumes: "parse_value n s = Some (v, r) \<Longrightarrow> length r < length s"
  using parser_consumes by blast

lemma parse_value_fuel_step:
  assumes len: "length s \<le> n" "n \<le> m"
    and el: "\<And>k j cs. n = Suc k \<Longrightarrow> m = Suc j \<Longrightarrow> length cs \<le> k
               \<Longrightarrow> parse_elements k cs = parse_elements j cs"
    and me: "\<And>k j cs. n = Suc k \<Longrightarrow> m = Suc j \<Longrightarrow> length cs \<le> k
               \<Longrightarrow> parse_members k cs = parse_members j cs"
  shows "parse_value n s = parse_value m s"
proof (cases "skip_ws s")
  case Nil
  then show ?thesis
    by (simp add: parse_value.simps [of n s] parse_value.simps [of m s])
next
  case (Cons c cs)
  from skip_ws_Cons_shorter [OF Cons] len obtain k j where
    n: "n = Suc k" and m: "m = Suc j" and cs: "length cs \<le> k"
    by (cases n; cases m) auto
  note E1 = el [OF n m cs]
  note E2 = me [OF n m cs]
  show ?thesis
    unfolding n m
    by (simp add: parse_value.simps [of "Suc k" s] parse_value.simps [of "Suc j" s] Cons E1 E2
        cong: list.case_cong if_cong)
qed

lemma parse_elements_fuel_step:
  assumes len: "length s \<le> n" "n \<le> m"
    and va: "parse_value n s = parse_value m s"
    and el: "\<And>k j cs. n = Suc k \<Longrightarrow> m = Suc j \<Longrightarrow> length cs \<le> k
               \<Longrightarrow> parse_elements k cs = parse_elements j cs"
  shows "parse_elements n s = parse_elements m s"
proof (cases "parse_value m s")
  case None
  with va show ?thesis
    by (simp add: parse_elements.simps [of n s] parse_elements.simps [of m s])
next
  case (Some p)
  obtain v r1 where p: "p = (v, r1)" by (cases p)
  from Some p va have vn: "parse_value n s = Some (v, r1)" and vm: "parse_value m s = Some (v, r1)"
    by simp_all
  show ?thesis
  proof (cases "skip_ws r1")
    case Nil
    with vn vm show ?thesis
      by (simp add: parse_elements.simps [of n s] parse_elements.simps [of m s])
  next
    case (Cons c r')
    from parse_value_consumes [OF vn] skip_ws_Cons_shorter [OF Cons] len obtain k j where
      n: "n = Suc k" and m: "m = Suc j" and r': "length r' \<le> k"
      by (cases n; cases m) auto
    note E = el [OF n m r']
    from vn vm have vk: "parse_value (Suc k) s = Some (v, r1)" "parse_value (Suc j) s = Some (v, r1)"
      unfolding n m by simp_all
    show ?thesis
      unfolding n m
      by (simp add: parse_elements.simps [of "Suc k" s] parse_elements.simps [of "Suc j" s]
          vk Cons E cong: list.case_cong if_cong)
  qed
qed

lemma parse_members_fuel_step:
  assumes len: "length s \<le> n" "n \<le> m"
    and va: "\<And>x. length x \<le> n \<Longrightarrow> parse_value n x = parse_value m x"
    and me: "\<And>k j cs. n = Suc k \<Longrightarrow> m = Suc j \<Longrightarrow> length cs \<le> k
               \<Longrightarrow> parse_members k cs = parse_members j cs"
  shows "parse_members n s = parse_members m s"
proof (cases "skip_ws s")
  case Nil
  then show ?thesis
    by (simp add: parse_members.simps [of n s] parse_members.simps [of m s])
next
  case s0: (Cons q s1)
  show ?thesis
  proof (cases "parse_chars s1")
    case None
    with s0 show ?thesis
      by (simp add: parse_members.simps [of n s] parse_members.simps [of m s])
  next
    case (Some p)
    obtain k0 s2 where p: "p = (k0, s2)" by (cases p)
    with Some have pc: "parse_chars s1 = Some (k0, s2)" by simp
    show ?thesis
    proof (cases "skip_ws s2")
      case Nil
      with s0 pc show ?thesis
        by (simp add: parse_members.simps [of n s] parse_members.simps [of m s])
    next
      case s2: (Cons colon s3)
      have l3: "length s3 < length s"
        using skip_ws_Cons_shorter [OF s0] parse_chars_shorter [OF pc] skip_ws_Cons_shorter [OF s2]
        by simp
      with len have "length s3 \<le> n" by simp
      note V = va [OF this]
      show ?thesis
      proof (cases "parse_value m s3")
        case None
        with V s0 pc s2 show ?thesis
          by (simp add: parse_members.simps [of n s] parse_members.simps [of m s])
      next
        case (Some pv)
        obtain v r1 where pv: "pv = (v, r1)" by (cases pv)
        from Some pv V have vn: "parse_value n s3 = Some (v, r1)"
          and vm: "parse_value m s3 = Some (v, r1)" by simp_all
        show ?thesis
        proof (cases "skip_ws r1")
          case Nil
          with s0 pc s2 vn vm show ?thesis
            by (simp add: parse_members.simps [of n s] parse_members.simps [of m s])
        next
          case (Cons c r')
          from parse_value_consumes [OF vn] skip_ws_Cons_shorter [OF Cons] l3 len obtain k j where
            n: "n = Suc k" and m: "m = Suc j" and r': "length r' \<le> k"
            by (cases n; cases m) auto
          note E = me [OF n m r']
          from vn vm have vk: "parse_value (Suc k) s3 = Some (v, r1)"
            "parse_value (Suc j) s3 = Some (v, r1)"
            unfolding n m by simp_all
          show ?thesis
            unfolding n m
            by (simp add: parse_members.simps [of "Suc k" s] parse_members.simps [of "Suc j" s]
                s0 pc s2 vk Cons E cong: list.case_cong if_cong)
        qed
      qed
    qed
  qed
qed

lemma parser_fuel:
  "(\<forall>s m. length s \<le> n \<longrightarrow> n \<le> m \<longrightarrow> parse_value n s = parse_value m s)
   \<and> (\<forall>s m. length s \<le> n \<longrightarrow> n \<le> m \<longrightarrow> parse_elements n s = parse_elements m s)
   \<and> (\<forall>s m. length s \<le> n \<longrightarrow> n \<le> m \<longrightarrow> parse_members n s = parse_members m s)"
proof (induction n)
  case 0
  have va: "parse_value 0 s = parse_value m s" if "length s \<le> 0" "0 \<le> m" for s m
    by (rule parse_value_fuel_step [OF that]) simp_all
  have el: "parse_elements 0 s = parse_elements m s" if "length s \<le> 0" "0 \<le> m" for s m
    by (rule parse_elements_fuel_step [OF that va [OF that]]) simp
  have me: "parse_members 0 s = parse_members m s" if "length s \<le> 0" "0 \<le> m" for s m
  proof (rule parse_members_fuel_step [OF that])
    fix x :: jsstring
    assume "length x \<le> 0"
    then show "parse_value 0 x = parse_value m x" using that(2) by (rule va)
  next
    fix k j :: nat and cs :: jsstring
    assume "0 = Suc k"
    then show "parse_members k cs = parse_members j cs" by simp
  qed
  from va el me show ?case by blast
next
  case (Suc n)
  from Suc have ihe: "length s \<le> n \<Longrightarrow> n \<le> m \<Longrightarrow> parse_elements n s = parse_elements m s"
    for s m by blast
  from Suc have ihm: "length s \<le> n \<Longrightarrow> n \<le> m \<Longrightarrow> parse_members n s = parse_members m s"
    for s m by blast
  have va: "parse_value (Suc n) s = parse_value m s" if "length s \<le> Suc n" "Suc n \<le> m" for s m
  proof (rule parse_value_fuel_step [OF that])
    fix k j :: nat and cs :: jsstring
    assume a: "Suc n = Suc k" "m = Suc j" "length cs \<le> k"
    with that(2) have "length cs \<le> n" "n \<le> j" by simp_all
    then have "parse_elements n cs = parse_elements j cs" by (rule ihe)
    with a(1) show "parse_elements k cs = parse_elements j cs" by simp
  next
    fix k j :: nat and cs :: jsstring
    assume a: "Suc n = Suc k" "m = Suc j" "length cs \<le> k"
    with that(2) have "length cs \<le> n" "n \<le> j" by simp_all
    then have "parse_members n cs = parse_members j cs" by (rule ihm)
    with a(1) show "parse_members k cs = parse_members j cs" by simp
  qed
  have el: "parse_elements (Suc n) s = parse_elements m s" if "length s \<le> Suc n" "Suc n \<le> m" for s m
  proof (rule parse_elements_fuel_step [OF that va [OF that]])
    fix k j :: nat and cs :: jsstring
    assume a: "Suc n = Suc k" "m = Suc j" "length cs \<le> k"
    with that(2) have "length cs \<le> n" "n \<le> j" by simp_all
    then have "parse_elements n cs = parse_elements j cs" by (rule ihe)
    with a(1) show "parse_elements k cs = parse_elements j cs" by simp
  qed
  have me: "parse_members (Suc n) s = parse_members m s" if "length s \<le> Suc n" "Suc n \<le> m" for s m
  proof (rule parse_members_fuel_step [OF that])
    fix x :: jsstring
    assume "length x \<le> Suc n"
    then show "parse_value (Suc n) x = parse_value m x" using that(2) by (rule va)
  next
    fix k j :: nat and cs :: jsstring
    assume a: "Suc n = Suc k" "m = Suc j" "length cs \<le> k"
    with that(2) have "length cs \<le> n" "n \<le> j" by simp_all
    then have "parse_members n cs = parse_members j cs" by (rule ihm)
    with a(1) show "parse_members k cs = parse_members j cs" by simp
  qed
  from va el me show ?case by blast
qed

lemma parse_value_fuel:
  assumes "length s \<le> m"
  shows "parse_value m s = parse_value (length s) s"
proof -
  from parser_fuel [of "length s"]
  have "length s \<le> length s \<longrightarrow> length s \<le> m \<longrightarrow> parse_value (length s) s = parse_value m s"
    by blast
  with assms show ?thesis by simp
qed

lemma JSON_parse_fuel:
  "length s \<le> m \<Longrightarrow>
   JSON_parse s = (case parse_value m s of None \<Rightarrow> None
                   | Some (v, r) \<Rightarrow> if skip_ws r = [] then Some v else None)"
  using parse_value_fuel [of s m] by (simp add: JSON_parse_def)

section \<open>JSON round trip\<close>

lemma hex_val_hex_digit_all: "\<forall>d\<in>set [0..<16]. hex_val (hex_digit d) = Some d"
  by code_simp

lemma hex_val_hex_digit: "d < 16 \<Longrightarrow> hex_val (hex_digit d) = Some d"
  using hex_val_hex_digit_all by simp

lemma hex_sum:
  fixes n :: nat
  shows "4096 * (n div 4096) + 256 * (n div 256 mod 16) + 16 * (n div 16 mod 16) + n mod 16 = n"
proof -
  have a: "n = 16 * (n div 16) + n mod 16" by simp
  have b: "n div 16 = 16 * (n div 256) + n div 16 mod 16"
    using div_mult_mod_eq [of "n div 16" 16] by (simp add: div_mult2_eq [symmetric])
  have c: "n div 256 = 16 * (n div 4096) + n div 256 mod 16"
    using div_mult_mod_eq [of "n div 256" 16] by (simp add: div_mult2_eq [symmetric])
  from a b c show ?thesis by linarith
qed

lemma hex4_unicode:
  "hex4 (hex_digit (unat c div 4096)) (hex_digit (unat c div 256 mod 16))
        (hex_digit (unat c div 16 mod 16)) (hex_digit (unat c mod 16)) = Some c"
proof -
  have "unat c < 2 ^ 16" using unsigned_less [of c] by simp
  then have "unat c div 4096 < 16" by simp
  then show ?thesis
    by (simp add: hex4_def hex_val_hex_digit hex_sum)
qed

lemma parse_chars_raw:
  assumes "\<not> c < 0x20" and "c \<noteq> 0x22" and "c \<noteq> 0x5C"
  shows "parse_chars (c # rest) =
           (case parse_chars rest of None \<Rightarrow> None | Some (s, t) \<Rightarrow> Some (c # s, t))"
  using assms by simp

lemma parse_chars_unicode_escape:
  "parse_chars (unicode_escape c @ rest) =
     (case parse_chars rest of None \<Rightarrow> None | Some (s, t) \<Rightarrow> Some (c # s, t))"
  by (simp add: unicode_escape_def hex4_unicode)

lemma parse_chars_escape_unit:
  "parse_chars (escape_unit c @ rest) =
     (case parse_chars rest of None \<Rightarrow> None | Some (s, t) \<Rightarrow> Some (c # s, t))"
proof -
  consider "c = 0x08" | "c = 0x09" | "c = 0x0A" | "c = 0x0C" | "c = 0x0D" | "c = 0x22" | "c = 0x5C"
    | "c \<noteq> 0x08" "c \<noteq> 0x09" "c \<noteq> 0x0A" "c \<noteq> 0x0C" "c \<noteq> 0x0D" "c \<noteq> 0x22" "c \<noteq> 0x5C" "c < 0x20"
    | "c \<noteq> 0x08" "c \<noteq> 0x09" "c \<noteq> 0x0A" "c \<noteq> 0x0C" "c \<noteq> 0x0D" "c \<noteq> 0x22" "c \<noteq> 0x5C" "\<not> c < 0x20"
    by blast
  then show ?thesis
  proof cases
    case 8
    then show ?thesis by (simp add: escape_unit_def parse_chars_unicode_escape)
  next
    case 9
    then show ?thesis by (simp add: escape_unit_def)
  qed (auto simp: escape_unit_def unescape_def)
qed

lemma lead_raw: "is_lead c \<Longrightarrow> \<not> c < 0x20 \<and> c \<noteq> 0x22 \<and> c \<noteq> 0x5C"
  unfolding is_lead_def by (auto simp: word_le_nat_alt word_less_nat_alt)

lemma trail_raw: "is_trail c \<Longrightarrow> \<not> c < 0x20 \<and> c \<noteq> 0x22 \<and> c \<noteq> 0x5C"
  unfolding is_trail_def by (auto simp: word_le_nat_alt word_less_nat_alt)

lemma parse_chars_quote_chars:
  "parse_chars (quote_chars s @ 0x22 # rest) = Some (s, rest)"
proof (induction s rule: quote_chars.induct)
  case 1
  show ?case by simp
next
  case (2 c cs)
  show ?case
  proof (cases "is_lead c")
    case lead: True
    show ?thesis
    proof (cases cs)
      case Nil
      with lead show ?thesis by (simp add: parse_chars_unicode_escape)
    next
      case (Cons d ds)
      show ?thesis
      proof (cases "is_trail d")
        case True
        with lead Cons 2(1) have ih: "parse_chars (quote_chars ds @ 0x22 # rest) = Some (ds, rest)"
          by simp
        have "quote_chars (c # cs) = c # d # quote_chars ds"
          using lead True Cons by simp
        then show ?thesis
          using lead_raw [OF lead] trail_raw [OF True] ih Cons by simp
      next
        case False
        with lead Cons 2(2) have ih: "parse_chars (quote_chars cs @ 0x22 # rest) = Some (cs, rest)"
          by simp
        have "quote_chars (c # cs) = unicode_escape c @ quote_chars cs"
          using lead False Cons by simp
        then show ?thesis using ih by (simp add: parse_chars_unicode_escape del: quote_chars.simps)
      qed
    qed
  next
    case nolead: False
    show ?thesis
    proof (cases "is_trail c")
      case True
      with nolead 2(3) have ih: "parse_chars (quote_chars cs @ 0x22 # rest) = Some (cs, rest)"
        by simp
      have "quote_chars (c # cs) = unicode_escape c @ quote_chars cs"
        using nolead True by simp
      then show ?thesis using ih by (simp add: parse_chars_unicode_escape del: quote_chars.simps)
    next
      case False
      with nolead 2(4) have ih: "parse_chars (quote_chars cs @ 0x22 # rest) = Some (cs, rest)"
        by simp
      have "quote_chars (c # cs) = escape_unit c @ quote_chars cs"
        using nolead False by simp
      then show ?thesis using ih by (simp add: parse_chars_escape_unit del: quote_chars.simps)
    qed
  qed
qed

lemma skip_ws_quote [simp]: "skip_ws (0x22 # s) = 0x22 # s"
  by (simp add: skip_ws_def json_ws_def)

lemma parse_value_string:
  "parse_value n (QuoteJSONString s @ rest) = Some (JString s, rest)"
  by (subst parse_value.simps) (simp add: QuoteJSONString_def parse_chars_quote_chars)

lemma skip_ws_punct [simp]:
  "skip_ws (0x2C # s) = 0x2C # s" "skip_ws (0x3A # s) = 0x3A # s"
  "skip_ws (0x5B # s) = 0x5B # s" "skip_ws (0x5D # s) = 0x5D # s"
  "skip_ws (0x7B # s) = 0x7B # s" "skip_ws (0x7D # s) = 0x7D # s"
  by (simp_all add: skip_ws_def json_ws_def)

lemma QuoteJSONString_Cons: "QuoteJSONString s = 0x22 # quote_chars s @ [0x22]"
  by (simp add: QuoteJSONString_def)

lemma parse_elements_strings:
  "xs \<noteq> [] \<Longrightarrow> length xs \<le> Suc n \<Longrightarrow>
   parse_elements n (join_comma (map QuoteJSONString xs) @ 0x5D # rest) = Some (map JString xs, rest)"
proof (induction xs arbitrary: n)
  case Nil
  then show ?case by simp
next
  case (Cons x xs)
  show ?case
  proof (cases xs)
    case Nil
    then show ?thesis
      by (subst parse_elements.simps) (simp add: parse_value_string)
  next
    case (Cons y ys)
    with Cons.prems obtain m where n: "n = Suc m" by (cases n) auto
    have ih: "parse_elements m (join_comma (map QuoteJSONString xs) @ 0x5D # rest)
                = Some (map JString xs, rest)"
      using Cons.IH [of m] Cons.prems Cons n by simp
    have split: "join_comma (map QuoteJSONString (x # xs)) @ 0x5D # rest
         = QuoteJSONString x @ 0x2C # (join_comma (map QuoteJSONString xs) @ 0x5D # rest)"
      using Cons by simp
    show ?thesis
      unfolding split
      by (subst parse_elements.simps) (simp add: parse_value_string n ih)
  qed
qed

lemma parse_value_string_array:
  assumes "0 < n" and "length xs \<le> n"
  shows "parse_value n (0x5B # join_comma (map QuoteJSONString xs) @ 0x5D # rest)
           = Some (JArray (map JString xs), rest)"
proof -
  from assms obtain m where n: "n = Suc m" by (cases n) auto
  show ?thesis
  proof (cases xs)
    case Nil
    then show ?thesis
      by (subst parse_value.simps) (simp add: n)
  next
    case (Cons y ys)
    have el: "parse_elements m (join_comma (map QuoteJSONString xs) @ 0x5D # rest)
                = Some (map JString xs, rest)"
      using parse_elements_strings [of xs m rest] Cons assms n by simp
    have hd: "join_comma (map QuoteJSONString xs) @ 0x5D # rest
                = 0x22 # tl (join_comma (map QuoteJSONString xs) @ 0x5D # rest)"
      using Cons by (cases ys) (simp_all add: QuoteJSONString_Cons)
    have "skip_ws (join_comma (map QuoteJSONString xs) @ 0x5D # rest)
            = 0x22 # tl (join_comma (map QuoteJSONString xs) @ 0x5D # rest)"
      by (subst hd) simp
    then show ?thesis
      by (subst parse_value.simps) (simp add: n el)
  qed
qed

lemma parse_members_step:
  assumes "parse_value (Suc m) (V @ 0x2C # tail) = Some (v, 0x2C # tail)"
  shows "parse_members (Suc m) (QuoteJSONString k @ 0x3A # V @ 0x2C # tail) =
           (case parse_members m tail of None \<Rightarrow> None | Some (ms, r) \<Rightarrow> Some ((k, v) # ms, r))"
  by (subst parse_members.simps)
     (simp add: QuoteJSONString_Cons parse_chars_quote_chars assms)

lemma parse_members_last:
  assumes "parse_value n (V @ 0x7D # rest) = Some (v, 0x7D # rest)"
  shows "parse_members n (QuoteJSONString k @ 0x3A # V @ 0x7D # rest) = Some ([(k, v)], rest)"
  by (subst parse_members.simps)
     (simp add: QuoteJSONString_Cons parse_chars_quote_chars assms)

lemma length_join_quoted: "length xs \<le> length (join_comma (map QuoteJSONString xs))"
proof (induction xs)
  case Nil
  show ?case by simp
next
  case (Cons x xs)
  then show ?case by (cases xs) (simp_all add: QuoteJSONString_def)
qed

lemma stringify_adviceObject:
  "JSON_stringify (adviceObject r) =
     0x7B # QuoteJSONString (js ''insights'') @ 0x3A
       # 0x5B # join_comma (map QuoteJSONString (insights r)) @ 0x5D
       # 0x2C # QuoteJSONString (js ''recommendations'') @ 0x3A
       # 0x5B # join_comma (map QuoteJSONString (recommendations r)) @ 0x5D
       # 0x2C # QuoteJSONString (js ''summary'') @ 0x3A # QuoteJSONString (summary r) @ [0x7D]"
  by (simp add: adviceObject_def comp_def)

lemma object_of_advice_members:
  "object_of_members [(js ''insights'', a), (js ''recommendations'', b), (js ''summary'', c)]
     = [(js ''insights'', a), (js ''recommendations'', b), (js ''summary'', c)]"
  by (simp add: object_of_members_def js_def)

lemma parse_value_adviceObject:
  assumes "length (insights r) + length (recommendations r) + 3 \<le> n"
  shows "parse_value n (JSON_stringify (adviceObject r) @ rest) = Some (adviceObject r, rest)"
proof -
  from assms have "3 \<le> n" by simp
  then obtain m3 where n: "n = Suc (Suc (Suc m3))"
    by (metis le_Suc_ex numeral_3_eq_3 add_Suc plus_nat.add_0)
  let ?I = "0x5B # join_comma (map QuoteJSONString (insights r)) @ [0x5D]"
  let ?R = "0x5B # join_comma (map QuoteJSONString (recommendations r)) @ [0x5D]"
  let ?t3 = "QuoteJSONString (js ''summary'') @ 0x3A # QuoteJSONString (summary r) @ 0x7D # rest"
  let ?t2 = "QuoteJSONString (js ''recommendations'') @ 0x3A # ?R @ 0x2C # ?t3"
  let ?t1 = "QuoteJSONString (js ''insights'') @ 0x3A # ?I @ 0x2C # ?t2"
  have m3: "parse_members m3 ?t3 = Some ([(js ''summary'', JString (summary r))], rest)"
    by (rule parse_members_last) (rule parse_value_string)
  have v2: "parse_value (Suc m3) (?R @ 0x2C # ?t3)
              = Some (JArray (map JString (recommendations r)), 0x2C # ?t3)"
    using parse_value_string_array [of "Suc m3" "recommendations r" "0x2C # ?t3"] assms n
    by simp
  have m2: "parse_members (Suc m3) ?t2 =
              Some ([(js ''recommendations'', JArray (map JString (recommendations r))),
                     (js ''summary'', JString (summary r))], rest)"
    unfolding parse_members_step [OF v2] m3 by simp
  have v1: "parse_value (Suc (Suc m3)) (?I @ 0x2C # ?t2)
              = Some (JArray (map JString (insights r)), 0x2C # ?t2)"
    using parse_value_string_array [of "Suc (Suc m3)" "insights r" "0x2C # ?t2"] assms n
    by simp
  have m1: "parse_members (Suc (Suc m3)) ?t1 =
              Some ([(js ''insights'', JArray (map JString (insights r))),
                     (js ''recommendations'', JArray (map JString (recommendations r))),
                     (js ''summary'', JString (summary r))], rest)"
    unfolding parse_members_step [OF v1] m2 by simp
  have shape: "JSON_stringify (adviceObject r) @ rest = 0x7B # ?t1"
    unfolding stringify_adviceObject by simp
  have sk: "skip_ws ?t1 = 0x22 # tl ?t1"
    by (simp add: QuoteJSONString_Cons)
  have main: "parse_value n (0x7B # ?t1) =
       Some (JObject [(js ''insights'', JArray (map JString (insights r))),
                      (js ''recommendations'', JArray (map JString (recommendations r))),
                      (js ''summary'', JString (summary r))], rest)"
    using sk m1 by (subst parse_value.simps) (simp add: n object_of_advice_members)
  show ?thesis
    unfolding shape using main by (simp add: adviceObject_def)
qed

lemma length_stringify_adviceObject:
  "length (insights r) + length (recommendations r) + 3 \<le> length (JSON_stringify (adviceObject r))"
  using length_join_quoted [of "insights r"] length_join_quoted [of "recommendations r"]
  unfolding stringify_adviceObject by simp

lemma JSON_roundtrip_advice: "JSON_parse (JSON_stringify (adviceObject r)) = Some (adviceObject r)"
  using parse_value_adviceObject [OF length_stringify_adviceObject, of r "[]"]
  by (simp add: JSON_parse_def skip_ws_def)

section \<open>The pipeline\<close>














lemma save_cases:
  "saveInsightsToFirestore env a doc = doc
   \<or> (\<exists>d' m. saveInsightsToFirestore env a doc = Some d'
            \<and> mostRecentInsightsTimestamp d' = Some (saveClock env)
            \<and> previousAdvice d' = Some m
            \<and> map_of m (saveClock env) = Some (JSON_stringify a))"
  by (cases doc) (auto simp: saveInsightsToFirestore_def Let_def update_conv')

lemma handle_cases:
  "snd (handleGetAdvice rt env userActions (ui, doc)) = doc
   \<or> snd (handleGetAdvice rt env userActions (ui, doc))
      = saveInsightsToFirestore env (advice (fst (handleGetAdvice rt env userActions (ui, doc)))) doc"
  by (auto simp: handleGetAdvice_def localFallback_def Let_def split: option.splits sum.splits)

lemma newActions_Nil: "newActions rt [] c = []"
  by (simp add: newActions_def split: option.splits)

lemma handle_remote_error:
  assumes "newActions rt userActions (checkpointTimestamp env doc) \<noteq> []"
    and "truthy_string (apiKey env)"
    and "requestAdvice env = Inl e"
    and "generateLocalAdvice rt fa (totalScore fa) (avgScore fa) (highImpactActions fa) (lowImpactActions fa) = Inr r"
    and "fa = formattedActions (formatClock env) (newActions rt userActions (checkpointTimestamp env doc))"
  shows "handleGetAdvice rt env userActions (ui, doc) =
           (ui\<lparr> advice := adviceObject r, error := None, loading := False \<rparr>,
            saveInsightsToFirestore env (adviceObject r) doc)"
proof -
  have ne: "userActions \<noteq> []" using assms(1) newActions_Nil by blast
  show ?thesis
    using assms ne by (simp add: handleGetAdvice_def localFallback_def Let_def)
qed

lemma handle_remote_value:
  assumes "newActions rt userActions (checkpointTimestamp env doc) \<noteq> []"
    and "truthy_string (apiKey env)"
    and "requestAdvice env = Inr v"
  shows "handleGetAdvice rt env userActions (ui, doc) =
           (ui\<lparr> advice := v, error := None, loading := False \<rparr>,
            saveInsightsToFirestore env v doc)"
proof -
  have ne: "userActions \<noteq> []" using assms(1) newActions_Nil by blast
  show ?thesis
    using assms ne by (simp add: handleGetAdvice_def Let_def)
qed

lemma request_fails:
  assumes "case fetchResult env of Rejected m \<Rightarrow> True
           | Response ok statusText body \<Rightarrow> \<not> ok \<or> JSON_parse body = None"
  shows "\<exists>e. requestAdvice env = Inl e"
  using assms by (auto simp: requestAdvice_def split: fetch_result.splits)

lemma request_raw:
  assumes "fetchResult env = Response True statusText body"
    and "JSON_parse body = Some geminiData"
    and "responseTextOf geminiData = Inr (JString responseText)"
    and "JSON_parse (trim (jsonTextOf responseText)) = None"
  shows "requestAdvice env = Inr (rawAdvice responseText)"
  using assms by (simp add: requestAdvice_def adviceOfText_def)

text \<open>
  Claim C3, as amended. Once there are new actions and an API key: when the request is
  rejected, the response is not \<^verbatim>\<open>ok\<close> or its body is not JSON, the advice shown and
  persisted is the record of the local generator and the error is cleared; when the
  response is \<^verbatim>\<open>ok\<close> and the candidate text is a string that does not parse as JSON
  after the fence is stripped, the advice shown and persisted is the raw text as
  \<^verbatim>\<open>message\<close> with its first five non-blank lines as \<^verbatim>\<open>insights\<close>.
\<close>

theorem remote_failure_outcomes:
  "(newActions rt userActions (checkpointTimestamp env doc) \<noteq> [] \<and> truthy_string (apiKey env)
      \<and> (case fetchResult env of Rejected m \<Rightarrow> True
          | Response ok statusText body \<Rightarrow> \<not> ok \<or> JSON_parse body = None)
    \<longrightarrow> (let fa = formattedActions (formatClock env)
                    (newActions rt userActions (checkpointTimestamp env doc))
         in \<exists>r. generateLocalAdvice rt fa (totalScore fa) (avgScore fa) (highImpactActions fa)
                   (lowImpactActions fa) = Inr r
              \<and> handleGetAdvice rt env userActions (ui, doc) =
                  (ui\<lparr> advice := adviceObject r, error := None, loading := False \<rparr>,
                   saveInsightsToFirestore env (adviceObject r) doc)))
   \<and> (newActions rt userActions (checkpointTimestamp env doc) \<noteq> [] \<and> truthy_string (apiKey env)
      \<and> fetchResult env = Response True statusText body
      \<and> JSON_parse body = Some geminiData
      \<and> responseTextOf geminiData = Inr (JString responseText)
      \<and> JSON_parse (trim (jsonTextOf responseText)) = None
    \<longrightarrow> handleGetAdvice rt env userActions (ui, doc) =
          (ui\<lparr> advice := rawAdvice responseText, error := None, loading := False \<rparr>,
           saveInsightsToFirestore env (rawAdvice responseText) doc))"
proof (intro conjI impI)
  assume a: "newActions rt userActions (checkpointTimestamp env doc) \<noteq> [] \<and> truthy_string (apiKey env)
      \<and> (case fetchResult env of Rejected m \<Rightarrow> True
          | Response ok statusText body \<Rightarrow> \<not> ok \<or> JSON_parse body = None)"
  define fa where "fa = formattedActions (formatClock env)
                    (newActions rt userActions (checkpointTimestamp env doc))"
  from a obtain e where e: "requestAdvice env = Inl e" using request_fails by blast
  from generateLocalAdvice_returns obtain r where
    r: "generateLocalAdvice rt fa (totalScore fa) (avgScore fa) (highImpactActions fa)
          (lowImpactActions fa) = Inr r" by blast
  have "handleGetAdvice rt env userActions (ui, doc) =
           (ui\<lparr> advice := adviceObject r, error := None, loading := False \<rparr>,
            saveInsightsToFirestore env (adviceObject r) doc)"
    using handle_remote_error [OF _ _ e r fa_def] a by blast
  with r show "let fa = formattedActions (formatClock env)
                    (newActions rt userActions (checkpointTimestamp env doc))
         in \<exists>r. generateLocalAdvice rt fa (totalScore fa) (avgScore fa) (highImpactActions fa)
                   (lowImpactActions fa) = Inr r
              \<and> handleGetAdvice rt env userActions (ui, doc) =
                  (ui\<lparr> advice := adviceObject r, error := None, loading := False \<rparr>,
                   saveInsightsToFirestore env (adviceObject r) doc)"
    unfolding Let_def fa_def by blast
next
  assume b: "newActions rt userActions (checkpointTimestamp env doc) \<noteq> [] \<and> truthy_string (apiKey env)
      \<and> fetchResult env = Response True statusText body
      \<and> JSON_parse body = Some geminiData
      \<and> responseTextOf geminiData = Inr (JString responseText)
      \<and> JSON_parse (trim (jsonTextOf responseText)) = None"
  then have "requestAdvice env = Inr (rawAdvice responseText)"
    using request_raw by blast
  then show "handleGetAdvice rt env userActions (ui, doc) =
          (ui\<lparr> advice := rawAdvice responseText, error := None, loading := False \<rparr>,
           saveInsightsToFirestore env (rawAdvice responseText) doc)"
    using handle_remote_value b by blast
qed

section \<open>Examples and the remaining claims\<close>

lemma example_checkpoint:
  "checkpointTimestamp exampleEnv (Some exampleDoc) = Some (js ''2024-01-01T00:00:00.000Z'')"
  by (simp add: checkpointTimestamp_def exampleEnv_def exampleDoc_def or_string_def
      truthy_string_def js_def)


lemma stringify_advice_nonempty: "JSON_stringify (adviceObject r) \<noteq> []"
  unfolding stringify_adviceObject by simp








lemma scenario2_selected:
  "newActions exampleRuntime scenario2_actions (Some (js ''2024-01-01T00:00:00.000Z''))
     = scenario2_actions"
  by (simp add: newActions_def scenario2_actions_def dashboardAction_def exampleRuntime_def
      actionTimestamp_def or_string_def truthy_string_def date_gt_def js_def)

lemma scenario2_nonempty: "scenario2_actions \<noteq> []"
  by (simp add: scenario2_actions_def)

lemma serverError_checkpoint:
  "checkpointTimestamp serverErrorEnv (Some exampleDoc) = Some (js ''2024-01-01T00:00:00.000Z'')"
  by (simp add: checkpointTimestamp_def serverErrorEnv_def exampleEnv_def exampleDoc_def
      or_string_def truthy_string_def js_def)

lemma hello_checkpoint:
  "checkpointTimestamp helloEnv (Some exampleDoc) = Some (js ''2024-01-01T00:00:00.000Z'')"
  by (simp add: checkpointTimestamp_def helloEnv_def exampleEnv_def exampleDoc_def
      or_string_def truthy_string_def js_def)

lemma hello_parses: "JSON_parse helloBody = Some helloData"
  by code_simp

lemma hello_text: "responseTextOf helloData = Inr (JString (js ''Hello''))"
  by code_simp

lemma hello_not_json: "JSON_parse (trim (jsonTextOf (js ''Hello''))) = None"
  by code_simp

lemma adviceObject_not_raw: "adviceObject r \<noteq> rawAdvice t"
  by (simp add: adviceObject_def rawAdvice_def js_def)

theorem remote_failure_outcomes_witness:
  "newActions exampleRuntime scenario2_actions (checkpointTimestamp serverErrorEnv (Some exampleDoc)) \<noteq> []
   \<and> truthy_string (apiKey serverErrorEnv)
   \<and> fetchResult serverErrorEnv = Response False (js ''Internal Server Error'') []
   \<and> (\<exists>r. generateLocalAdvice exampleRuntime
             (formattedActions (formatClock serverErrorEnv) scenario2_actions)
             (totalScore (formattedActions (formatClock serverErrorEnv) scenario2_actions))
             (avgScore (formattedActions (formatClock serverErrorEnv) scenario2_actions))
             (highImpactActions (formattedActions (formatClock serverErrorEnv) scenario2_actions))
             (lowImpactActions (formattedActions (formatClock serverErrorEnv) scenario2_actions))
            = Inr r
          \<and> handleGetAdvice exampleRuntime serverErrorEnv scenario2_actions (idleUI, Some exampleDoc) =
              (idleUI\<lparr> advice := adviceObject r, error := None, loading := False \<rparr>,
               saveInsightsToFirestore serverErrorEnv (adviceObject r) (Some exampleDoc)))
   \<and> newActions exampleRuntime scenario2_actions (checkpointTimestamp helloEnv (Some exampleDoc)) \<noteq> []
   \<and> truthy_string (apiKey helloEnv)
   \<and> fetchResult helloEnv = Response True (js ''OK'') helloBody
   \<and> JSON_parse helloBody = Some helloData
   \<and> responseTextOf helloData = Inr (JString (js ''Hello''))
   \<and> JSON_parse (trim (jsonTextOf (js ''Hello''))) = None
   \<and> handleGetAdvice exampleRuntime helloEnv scenario2_actions (idleUI, Some exampleDoc) =
       (idleUI\<lparr> advice := rawAdvice (js ''Hello''), error := None, loading := False \<rparr>,
        saveInsightsToFirestore helloEnv (rawAdvice (js ''Hello'')) (Some exampleDoc))"
proof -
  have a1: "newActions exampleRuntime scenario2_actions
              (checkpointTimestamp serverErrorEnv (Some exampleDoc)) = scenario2_actions"
    by (simp add: serverError_checkpoint scenario2_selected)
  have a2: "truthy_string (apiKey serverErrorEnv)"
    by (simp add: serverErrorEnv_def truthy_string_def js_def)
  have a3: "fetchResult serverErrorEnv = Response False (js ''Internal Server Error'') []"
    by (simp add: serverErrorEnv_def)
  have b1: "newActions exampleRuntime scenario2_actions
              (checkpointTimestamp helloEnv (Some exampleDoc)) = scenario2_actions"
    by (simp add: hello_checkpoint scenario2_selected)
  have b2: "truthy_string (apiKey helloEnv)"
    by (simp add: helloEnv_def truthy_string_def js_def)
  have b3: "fetchResult helloEnv = Response True (js ''OK'') helloBody"
    by (simp add: helloEnv_def)
  note A = remote_failure_outcomes [of exampleRuntime scenario2_actions serverErrorEnv
      "Some exampleDoc" idleUI, THEN conjunct1]
  note B = remote_failure_outcomes [of exampleRuntime scenario2_actions helloEnv
      "Some exampleDoc" idleUI "js ''OK''" helloBody helloData "js ''Hello''", THEN conjunct2]
  have ra: "\<exists>r. generateLocalAdvice exampleRuntime
             (formattedActions (formatClock serverErrorEnv) scenario2_actions)
             (totalScore (formattedActions (formatClock serverErrorEnv) scenario2_actions))
             (avgScore (formattedActions (formatClock serverErrorEnv) scenario2_actions))
             (highImpactActions (formattedActions (formatClock serverErrorEnv) scenario2_actions))
             (lowImpactActions (formattedActions (formatClock serverErrorEnv) scenario2_actions))
            = Inr r
          \<and> handleGetAdvice exampleRuntime serverErrorEnv scenario2_actions (idleUI, Some exampleDoc) =
              (idleUI\<lparr> advice := adviceObject r, error := None, loading := False \<rparr>,
               saveInsightsToFirestore serverErrorEnv (adviceObject r) (Some exampleDoc))"
    using A a2 a3 scenario2_nonempty unfolding a1 Let_def by simp
  have rb: "handleGetAdvice exampleRuntime helloEnv scenario2_actions (idleUI, Some exampleDoc) =
       (idleUI\<lparr> advice := rawAdvice (js ''Hello''), error := None, loading := False \<rparr>,
        saveInsightsToFirestore helloEnv (rawAdvice (js ''Hello'')) (Some exampleDoc))"
    using B b2 b3 hello_parses hello_text hello_not_json scenario2_nonempty unfolding b1 by simp
  show ?thesis
    using ra rb a2 a3 b2 b3 hello_parses hello_text hello_not_json scenario2_nonempty
    unfolding a1 b1 by simp
qed

text \<open>
  The claim C3 as the specification states it fails on a response whose candidate text is
  \<^verbatim>\<open>Hello\<close>: the text does not parse as JSON, and the advice shown is the raw text, not
  the record of the local generator.
\<close>

theorem unparseable_text_is_not_local_fallback:
  "fetchResult helloEnv = Response True (js ''OK'') helloBody
   \<and> JSON_parse (trim (jsonTextOf (js ''Hello''))) = None
   \<and> advice (fst (handleGetAdvice exampleRuntime helloEnv scenario2_actions (idleUI, Some exampleDoc)))
       = rawAdvice (js ''Hello'')
   \<and> map_sum id adviceObject
        (generateLocalAdvice exampleRuntime
           (formattedActions (formatClock helloEnv) scenario2_actions)
           (totalScore (formattedActions (formatClock helloEnv) scenario2_actions))
           (avgScore (formattedActions (formatClock helloEnv) scenario2_actions))
           (highImpactActions (formattedActions (formatClock helloEnv) scenario2_actions))
           (lowImpactActions (formattedActions (formatClock helloEnv) scenario2_actions)))
       \<noteq> Inr (rawAdvice (js ''Hello''))"
proof -
  have b1: "newActions exampleRuntime scenario2_actions
              (checkpointTimestamp helloEnv (Some exampleDoc)) \<noteq> []"
    by (simp add: hello_checkpoint scenario2_selected scenario2_nonempty)
  have b2: "truthy_string (apiKey helloEnv)"
    by (simp add: helloEnv_def truthy_string_def js_def)
  have b3: "fetchResult helloEnv = Response True (js ''OK'') helloBody"
    by (simp add: helloEnv_def)
  have req: "requestAdvice helloEnv = Inr (rawAdvice (js ''Hello''))"
    using request_raw [OF b3 hello_parses hello_text hello_not_json] .
  have shown: "advice (fst (handleGetAdvice exampleRuntime helloEnv scenario2_actions
                  (idleUI, Some exampleDoc))) = rawAdvice (js ''Hello'')"
    using handle_remote_value [OF b1 b2 req, of idleUI] by simp
  obtain r where "generateLocalAdvice exampleRuntime
           (formattedActions (formatClock helloEnv) scenario2_actions)
           (totalScore (formattedActions (formatClock helloEnv) scenario2_actions))
           (avgScore (formattedActions (formatClock helloEnv) scenario2_actions))
           (highImpactActions (formattedActions (formatClock helloEnv) scenario2_actions))
           (lowImpactActions (formattedActions (formatClock helloEnv) scenario2_actions)) = Inr r"
    using generateLocalAdvice_returns by blast
  then show ?thesis
    using b3 hello_not_json shown adviceObject_not_raw by simp
qed

lemma erase_formatAction: "erase_timestamp (formatAction now a) = erase_timestamp (formatAction now' a)"
  by (simp add: erase_timestamp_def formatAction_def)

lemma erase_formattedActions:
  "map erase_timestamp (formattedActions clock1 acts) = map erase_timestamp (formattedActions clock2 acts)"
  by (simp add: formattedActions_def case_prod_unfold erase_formatAction [of "clock1 _" _ "clock2 _"])

lemma erase_fields [simp]:
  "action' (erase_timestamp a) = action' a"
  "sustainabilityScore' (erase_timestamp a) = sustainabilityScore' a"
  "category' (erase_timestamp a) = category' a"
  by (simp_all add: erase_timestamp_def)

lemma foldl_scores_erase:
  "foldl (\<lambda>sum a. jsadd sum (sustainabilityScore' a)) z (map erase_timestamp xs)
     = foldl (\<lambda>sum a. jsadd sum (sustainabilityScore' a)) z xs"
  by (induction xs arbitrary: z) simp_all

lemma totalScore_erase: "totalScore (map erase_timestamp xs) = totalScore xs"
  by (simp add: totalScore_def foldl_scores_erase)

lemma avgScore_erase: "avgScore (map erase_timestamp xs) = avgScore xs"
  by (simp add: avgScore_def totalScore_erase)

lemma highImpactActions_erase:
  "highImpactActions (map erase_timestamp xs) = map erase_timestamp (highImpactActions xs)"
  by (simp add: highImpactActions_def filter_map comp_def)

lemma lowImpactActions_erase:
  "lowImpactActions (map erase_timestamp xs) = map erase_timestamp (lowImpactActions xs)"
  by (simp add: lowImpactActions_def filter_map comp_def)

lemma highImpactInsights_erase:
  "highImpactInsights rt (map erase_timestamp hs) = highImpactInsights rt hs"
  by (cases hs) (simp_all add: highImpactInsights_def)

lemma lowImpactInsights_erase:
  "lowImpactInsights (map erase_timestamp ls) = lowImpactInsights ls"
  by (simp add: lowImpactInsights_def)

lemma transportInsights_erase:
  "transportInsights rt (map erase_timestamp xs) tot = transportInsights rt xs tot"
  by (simp add: transportInsights_def filter_map comp_def foldl_scores_erase)

lemma localRecommendations_erase:
  "localRecommendations rt (map erase_timestamp xs) avg (map erase_timestamp hs)
     = localRecommendations rt xs avg hs"
  by (simp add: localRecommendations_def list_ex_iff)

lemma localSummary_erase:
  "localSummary rt (map erase_timestamp xs) tot (map erase_timestamp hs) = localSummary rt xs tot hs"
  by (simp add: localSummary_def)

lemma generateLocalAdvice_erase:
  "generateLocalAdvice rt (map erase_timestamp xs) tot avg (map erase_timestamp hs)
       (map erase_timestamp ls)
     = generateLocalAdvice rt xs tot avg hs ls"
  by (simp add: generateLocalAdvice_def highImpactInsights_erase lowImpactInsights_erase
      transportInsights_erase localRecommendations_erase localSummary_erase
      split: sum.splits)

lemma local_advice_of_erased:
  "generateLocalAdvice rt xs (totalScore xs) (avgScore xs) (highImpactActions xs) (lowImpactActions xs)
   = generateLocalAdvice rt (map erase_timestamp xs) (totalScore (map erase_timestamp xs))
       (avgScore (map erase_timestamp xs)) (highImpactActions (map erase_timestamp xs))
       (lowImpactActions (map erase_timestamp xs))"
  by (simp add: totalScore_erase avgScore_erase highImpactActions_erase lowImpactActions_erase
      generateLocalAdvice_erase)

text \<open>
  Claim C7. The local generator is a function of its five arguments and of the number
  formatting of the runtime: it reads no clock, no store and no random source. The
  only clock readings that reach its arguments are the timestamps given to actions that
  have none, and the record does not depend on them: two runs over the same new actions
  with different clock readings return the same record.
\<close>

theorem local_advice_ignores_clock:
  "generateLocalAdvice rt (formattedActions clock1 acts)
       (totalScore (formattedActions clock1 acts)) (avgScore (formattedActions clock1 acts))
       (highImpactActions (formattedActions clock1 acts))
       (lowImpactActions (formattedActions clock1 acts))
   = generateLocalAdvice rt (formattedActions clock2 acts)
       (totalScore (formattedActions clock2 acts)) (avgScore (formattedActions clock2 acts))
       (highImpactActions (formattedActions clock2 acts))
       (lowImpactActions (formattedActions clock2 acts))"
  unfolding local_advice_of_erased [of rt "formattedActions clock1 acts"]
    local_advice_of_erased [of rt "formattedActions clock2 acts"]
    erase_formattedActions [of clock1 acts clock2] ..

lemma adviceObject_inject: "(adviceObject r = adviceObject r') = (r = r')"
proof
  assume "adviceObject r = adviceObject r'"
  then have "insights r = insights r'" "recommendations r = recommendations r'" "summary r = summary r'"
    by (simp_all add: adviceObject_def inj_map_eq_map inj_on_def)
  then show "r = r'" by simp
qed simp

lemma stored_after_save:
  assumes "user env \<noteq> None" "\<not> saveReadFails env" "\<not> saveWriteFails env" "\<not> fetchPreviousFails env"
  shows "storedAdvice env (saveInsightsToFirestore env (adviceObject r) (Some d)) (saveClock env)
           = Some (adviceObject r)"
proof -
  from assms(1) obtain uid where u: "user env = Some uid" by auto
  show ?thesis
    using u assms(2-4)
    by (simp add: storedAdvice_def getProperty_def saveInsightsToFirestore_def Let_def
        update_conv' stringify_advice_nonempty JSON_roundtrip_advice
        del: JSON_stringify.simps)
qed

text \<open>
  Claim C8. Parsing the serialisation of an advice record gives back the same object,
  and two such objects are equal exactly when the records agree in all three fields.
  Through the store: after the record is persisted, the nothing-new path reads the same
  object back under the key of that write.
\<close>

theorem advice_record_roundtrip:
  "JSON_parse (JSON_stringify (adviceObject r)) = Some (adviceObject r)
   \<and> ((adviceObject r = adviceObject r') = (r = r'))
   \<and> (user env \<noteq> None \<and> \<not> saveReadFails env \<and> \<not> saveWriteFails env \<and> \<not> fetchPreviousFails env
      \<longrightarrow> storedAdvice env (saveInsightsToFirestore env (adviceObject r) (Some d)) (saveClock env)
            = Some (adviceObject r))"
  using JSON_roundtrip_advice adviceObject_inject stored_after_save by blast

theorem advice_record_roundtrip_witness:
  "user exampleEnv \<noteq> None \<and> \<not> saveReadFails exampleEnv \<and> \<not> saveWriteFails exampleEnv
   \<and> \<not> fetchPreviousFails exampleEnv
   \<and> storedAdvice exampleEnv
        (saveInsightsToFirestore exampleEnv (adviceObject exampleAdvice) (Some exampleDoc))
        (saveClock exampleEnv)
      = Some (adviceObject exampleAdvice)"
proof -
  have h: "user exampleEnv \<noteq> None \<and> \<not> saveReadFails exampleEnv \<and> \<not> saveWriteFails exampleEnv
             \<and> \<not> fetchPreviousFails exampleEnv"
    by (simp add: exampleEnv_def)
  with advice_record_roundtrip [of exampleAdvice exampleAdvice exampleEnv exampleDoc]
  show ?thesis by blast
qed

lemma handle_generates:
  assumes "newActions rt userActions (checkpointTimestamp env doc) \<noteq> []"
  shows "snd (handleGetAdvice rt env userActions (ui, doc))
           = saveInsightsToFirestore env (advice (fst (handleGetAdvice rt env userActions (ui, doc)))) doc"
proof -
  have ne: "userActions \<noteq> []" using assms newActions_Nil by blast
  define fa where "fa = formattedActions (formatClock env)
                    (newActions rt userActions (checkpointTimestamp env doc))"
  obtain r where r: "generateLocalAdvice rt fa (totalScore fa) (avgScore fa) (highImpactActions fa)
          (lowImpactActions fa) = Inr r"
    using generateLocalAdvice_returns by blast
  show ?thesis
    using assms ne r unfolding fa_def
    by (cases "requestAdvice env")
       (simp_all add: handleGetAdvice_def localFallback_def Let_def)
qed

lemma save_writes:
  assumes "user env \<noteq> None" "\<not> saveReadFails env" "\<not> saveWriteFails env"
  shows "\<exists>d' m. saveInsightsToFirestore env adviceData (Some d) = Some d'
            \<and> mostRecentInsightsTimestamp d' = Some (saveClock env)
            \<and> previousAdvice d' = Some m
            \<and> map_of m (saveClock env) = Some (JSON_stringify adviceData)"
proof -
  from assms(1) obtain uid where "user env = Some uid" by auto
  with assms(2,3) show ?thesis
    by (simp add: saveInsightsToFirestore_def Let_def update_conv')
qed

text \<open>
  Claim C9. In a run that generates advice for a signed-in user whose document exists,
  when the read and the write of the save succeed, the document afterwards has its
  checkpoint pointer equal to the clock reading of the save, and the advice mapping holds
  under that same key the serialisation of the advice shown. In every run the document
  is either unchanged or written in that way; so is every call of the save.
\<close>

theorem pointer_equals_inserted_key:
  "(newActions rt userActions (checkpointTimestamp env (Some d)) \<noteq> [] \<and> user env \<noteq> None
      \<and> \<not> saveReadFails env \<and> \<not> saveWriteFails env
    \<longrightarrow> (\<exists>d' m. snd (handleGetAdvice rt env userActions (ui, Some d)) = Some d'
            \<and> mostRecentInsightsTimestamp d' = Some (saveClock env)
            \<and> previousAdvice d' = Some m
            \<and> map_of m (saveClock env)
                = Some (JSON_stringify (advice (fst (handleGetAdvice rt env userActions (ui, Some d)))))))
   \<and> (snd (handleGetAdvice rt env userActions (ui, doc)) = doc
      \<or> (\<exists>d' m. snd (handleGetAdvice rt env userActions (ui, doc)) = Some d'
            \<and> mostRecentInsightsTimestamp d' = Some (saveClock env)
            \<and> previousAdvice d' = Some m
            \<and> map_of m (saveClock env)
                = Some (JSON_stringify (advice (fst (handleGetAdvice rt env userActions (ui, doc)))))))
   \<and> (saveInsightsToFirestore env adviceData doc = doc
      \<or> (\<exists>d' m. saveInsightsToFirestore env adviceData doc = Some d'
            \<and> mostRecentInsightsTimestamp d' = Some (saveClock env)
            \<and> previousAdvice d' = Some m
            \<and> map_of m (saveClock env) = Some (JSON_stringify adviceData)))"
proof (intro conjI impI)
  assume a: "newActions rt userActions (checkpointTimestamp env (Some d)) \<noteq> [] \<and> user env \<noteq> None
      \<and> \<not> saveReadFails env \<and> \<not> saveWriteFails env"
  then show "\<exists>d' m. snd (handleGetAdvice rt env userActions (ui, Some d)) = Some d'
            \<and> mostRecentInsightsTimestamp d' = Some (saveClock env)
            \<and> previousAdvice d' = Some m
            \<and> map_of m (saveClock env)
                = Some (JSON_stringify (advice (fst (handleGetAdvice rt env userActions (ui, Some d)))))"
    using handle_generates [of rt userActions env "Some d" ui]
      save_writes [of env "advice (fst (handleGetAdvice rt env userActions (ui, Some d)))" d]
    by simp
next
  show "snd (handleGetAdvice rt env userActions (ui, doc)) = doc
      \<or> (\<exists>d' m. snd (handleGetAdvice rt env userActions (ui, doc)) = Some d'
            \<and> mostRecentInsightsTimestamp d' = Some (saveClock env)
            \<and> previousAdvice d' = Some m
            \<and> map_of m (saveClock env)
                = Some (JSON_stringify (advice (fst (handleGetAdvice rt env userActions (ui, doc))))))"
    using handle_cases [of rt env userActions ui doc]
      save_cases [of env "advice (fst (handleGetAdvice rt env userActions (ui, doc)))" doc]
    by auto
next
  show "saveInsightsToFirestore env adviceData doc = doc
      \<or> (\<exists>d' m. saveInsightsToFirestore env adviceData doc = Some d'
            \<and> mostRecentInsightsTimestamp d' = Some (saveClock env)
            \<and> previousAdvice d' = Some m
            \<and> map_of m (saveClock env) = Some (JSON_stringify adviceData))"
    by (rule save_cases)
qed

theorem pointer_equals_inserted_key_witness:
  "newActions exampleRuntime scenario2_actions (checkpointTimestamp exampleEnv (Some exampleDoc)) \<noteq> []
   \<and> user exampleEnv \<noteq> None \<and> \<not> saveReadFails exampleEnv \<and> \<not> saveWriteFails exampleEnv
   \<and> (\<exists>d' m. snd (handleGetAdvice exampleRuntime exampleEnv scenario2_actions (idleUI, Some exampleDoc))
                = Some d'
            \<and> mostRecentInsightsTimestamp d' = Some (js ''2024-01-03T00:00:00.000Z'')
            \<and> previousAdvice d' = Some m
            \<and> map_of m (js ''2024-01-03T00:00:00.000Z'')
                = Some (JSON_stringify (advice (fst (handleGetAdvice exampleRuntime exampleEnv
                     scenario2_actions (idleUI, Some exampleDoc))))))"
proof -
  have h1: "newActions exampleRuntime scenario2_actions
              (checkpointTimestamp exampleEnv (Some exampleDoc)) \<noteq> []"
    by (simp add: example_checkpoint scenario2_selected scenario2_nonempty)
  have h2: "user exampleEnv \<noteq> None \<and> \<not> saveReadFails exampleEnv \<and> \<not> saveWriteFails exampleEnv"
    by (simp add: exampleEnv_def)
  have clock: "saveClock exampleEnv = js ''2024-01-03T00:00:00.000Z''"
    by (simp add: exampleEnv_def)
  show ?thesis
    using pointer_equals_inserted_key [of exampleRuntime scenario2_actions exampleEnv exampleDoc
        idleUI "Some exampleDoc" JNull, THEN conjunct1] h1 h2
    unfolding clock by blast
qed

end
